theory Spec2Isabelle
  imports Complex_Main "HOL-Library.Word" "HOL-Library.Signed_Division" "HOL-Library.Log_Nat"
begin

unbundle bit_operations_syntax

section \<open>Data model of the tracker (src/src/main.h)\<close>

text \<open>
  The firmware is one class, \<open>HTITTracker\<close>, driven by a polled loop. Its fields become a
  record that every operation takes and returns. Conventions of the embedding:
  \<^item> \<open>int\<close> fields are HOL integers; the values the verified properties look at are menu
    positions and array indices, far from the 32-bit range.
  \<^item> \<open>unsigned long\<close> time stamps of \<open>millis()\<close> are 32-bit words, so \<open>now - start\<close>
    wraps as on the device.
  \<^item> a \<open>double\<close> is its 64-bit IEEE-754 pattern: the waypoint store copies doubles byte
    by byte and the state machine only moves them around. The arithmetic of the position
    parser (\<open>atof\<close>, addition, division, negation) is a parameter \<open>fpu\<close> of the parser.
  \<^item> a C string is the list of its characters before the terminating NUL; a pointer into
    a string is the suffix that starts there.
  \<^item> the fields that only the display, the battery estimator, the HDOP read-out and the
    speed computation use (\<open>lastHDOP\<close>, \<open>lastLat\<close>, \<open>currentSpeed\<close>, \<open>batteryReadings\<close>,
    the \<open>prev*Buf\<close> row caches, \<open>forceScreenRedraw\<close>, ...) are left out; no operation
    below reads them.
\<close>

type_synonym byte = "8 word"
type_synonym double = "64 word"
type_synonym millis = "32 word"

datatype ScreenType =
    SCREEN_STATUS
  | SCREEN_NAVIGATION
  | SCREEN_MAIN_MENU
  | SCREEN_WAYPOINT_MENU
  | SCREEN_WAYPOINT1_NAV
  | SCREEN_WAYPOINT2_NAV
  | SCREEN_WAYPOINT3_NAV
  | SCREEN_SET_WAYPOINT
  | SCREEN_SYSTEM_INFO
  | SCREEN_POWER_MENU
  | SCREEN_WAYPOINT_RESET
  | SCREEN_COUNT
  | SCREEN_OUT_OF_ENUM int

text \<open>
  \<open>(ScreenType)(SCREEN_WAYPOINT1_NAV + waypointToReset)\<close>: the enumerator with that
  number; a number that is no enumerator stays what it is.
\<close>

definition screenOfInt :: "int \<Rightarrow> ScreenType" where
  "screenOfInt k =
     (if k = 0 then SCREEN_STATUS
      else if k = 1 then SCREEN_NAVIGATION
      else if k = 2 then SCREEN_MAIN_MENU
      else if k = 3 then SCREEN_WAYPOINT_MENU
      else if k = 4 then SCREEN_WAYPOINT1_NAV
      else if k = 5 then SCREEN_WAYPOINT2_NAV
      else if k = 6 then SCREEN_WAYPOINT3_NAV
      else if k = 7 then SCREEN_SET_WAYPOINT
      else if k = 8 then SCREEN_SYSTEM_INFO
      else if k = 9 then SCREEN_POWER_MENU
      else if k = 10 then SCREEN_WAYPOINT_RESET
      else if k = 11 then SCREEN_COUNT
      else SCREEN_OUT_OF_ENUM k)"

text \<open>
  \<open>struct Waypoint\<close>. The \<open>bool isSet\<close> is one byte of storage: the firmware assigns it
  \<open>true\<close> (1) or \<open>false\<close> (0), \<open>EEPROM.get\<close> copies into it whatever byte the store
  holds, \<open>EEPROM.put\<close> copies that byte out again, and a test of the flag is a test for a
  non-zero byte.
\<close>

record Waypoint =
  lat :: double
  lon :: double
  isSetByte :: byte
  name :: string

definition isSet :: "Waypoint \<Rightarrow> bool" where
  "isSet w = (isSetByte w \<noteq> 0)"

record HTITTracker =
  gpsCount :: int
  glonassCount :: int
  beidouCount :: int
  galileoCount :: int
  qzssCount :: int
  totalInView :: int
  haveFix :: bool
  homeEstablished :: bool
  homeLat :: double
  homeLon :: double
  currentLat :: double
  currentLon :: double
  hasValidPosition :: bool
  waypoints :: "Waypoint list"
  activeWaypoint :: int
  waypointToSet :: int
  waypointToReset :: int
  currentScreen :: ScreenType
  menuIndex :: int
  lastButtonPress :: millis
  lastActivity :: millis
  lineBuf :: string
  lastLCDupdate :: millis
  lastButtonState :: bool
  buttonPressStart :: millis
  longPressHandled :: bool
  eeprom_data :: "nat \<Rightarrow> byte"
  eeprom_flash :: "nat \<Rightarrow> byte"

text \<open>
  \<open>lastButtonState\<close>, \<open>buttonPressStart\<close> and \<open>longPressHandled\<close> are the function-local
  statics of \<open>checkButton\<close> (they shadow the members of the same name). \<open>eeprom_data\<close> is
  the RAM image behind \<open>EEPROM.get\<close>/\<open>EEPROM.put\<close>, \<open>eeprom_flash\<close> the non-volatile
  copy written by \<open>EEPROM.commit()\<close> and read back by \<open>EEPROM.begin()\<close> after a restart.
\<close>

section \<open>The EEPROM byte region\<close>

definition EEPROM_MAGIC :: "32 word" where "EEPROM_MAGIC = 0xA5B4"
definition ADDR_MAGIC :: nat where "ADDR_MAGIC = 0"
definition ADDR_WAYPOINT1_LAT :: nat where "ADDR_WAYPOINT1_LAT = 4"
definition ADDR_WAYPOINT1_SET :: nat where "ADDR_WAYPOINT1_SET = 52"

text \<open>
  \<open>EEPROM.put(addr, v)\<close> and \<open>EEPROM.get(addr, v)\<close> copy \<open>sizeof v\<close> bytes; the ESP32 is
  little-endian. Every address the firmware uses is below 60, inside the 512 bytes.
\<close>

fun put_le :: "nat \<Rightarrow> nat \<Rightarrow> 'a::len word \<Rightarrow> (nat \<Rightarrow> byte) \<Rightarrow> (nat \<Rightarrow> byte)" where
  "put_le 0 a w m = m"
| "put_le (Suc n) a w m = put_le n (Suc a) (drop_bit 8 w) (m(a := ucast w))"

fun get_le :: "nat \<Rightarrow> nat \<Rightarrow> (nat \<Rightarrow> byte) \<Rightarrow> 'a::len word" where
  "get_le 0 a m = 0"
| "get_le (Suc n) a m = ucast (m a) OR push_bit 8 (get_le n (Suc a) m)"

definition EEPROM_put32 :: "nat \<Rightarrow> 32 word \<Rightarrow> (nat \<Rightarrow> byte) \<Rightarrow> (nat \<Rightarrow> byte)" where
  "EEPROM_put32 a w m = put_le 4 a w m"

definition EEPROM_get32 :: "nat \<Rightarrow> (nat \<Rightarrow> byte) \<Rightarrow> 32 word" where
  "EEPROM_get32 a m = get_le 4 a m"

definition EEPROM_put64 :: "nat \<Rightarrow> double \<Rightarrow> (nat \<Rightarrow> byte) \<Rightarrow> (nat \<Rightarrow> byte)" where
  "EEPROM_put64 a w m = put_le 8 a w m"

definition EEPROM_get64 :: "nat \<Rightarrow> (nat \<Rightarrow> byte) \<Rightarrow> double" where
  "EEPROM_get64 a m = get_le 8 a m"

text \<open>A \<open>bool\<close> is copied as the one byte it occupies, in both directions.\<close>

definition EEPROM_putBool :: "nat \<Rightarrow> byte \<Rightarrow> (nat \<Rightarrow> byte) \<Rightarrow> (nat \<Rightarrow> byte)" where
  "EEPROM_putBool a b m = m(a := b)"

definition EEPROM_getBool :: "nat \<Rightarrow> (nat \<Rightarrow> byte) \<Rightarrow> byte" where
  "EEPROM_getBool a m = m a"

section \<open>Waypoint management\<close>

text \<open>\<open>snprintf(buf, 12, "WP%d", k)\<close>: the decimal digits of \<open>k\<close>, cut to 11 characters.\<close>

fun decimal :: "nat \<Rightarrow> string" where
  "decimal n = (if n < 10 then [char_of (48 + n)] else decimal (n div 10) @ [char_of (48 + n mod 10)])"

declare decimal.simps [simp del]

definition wpName :: "int \<Rightarrow> string" where
  "wpName k = take 11 (''WP'' @ (if k < 0 then CHR ''-'' # decimal (nat (- k)) else decimal (nat k)))"

definition unsetWaypoint :: Waypoint where
  "unsetWaypoint = \<lparr>lat = 0, lon = 0, isSetByte = 0, name = ''''\<rparr>"

definition saveWaypoint :: "HTITTracker \<Rightarrow> nat \<Rightarrow> (nat \<Rightarrow> byte) \<Rightarrow> (nat \<Rightarrow> byte)" where
  "saveWaypoint s i d =
     (let baseAddr = ADDR_WAYPOINT1_LAT + i * 20;
          d1 = EEPROM_put64 baseAddr (lat (waypoints s ! i)) d;
          d2 = EEPROM_put64 (baseAddr + 8) (lon (waypoints s ! i)) d1
      in EEPROM_putBool (ADDR_WAYPOINT1_SET + i) (isSetByte (waypoints s ! i)) d2)"

definition saveWaypointsToEEPROM :: "HTITTracker \<Rightarrow> HTITTracker" where
  "saveWaypointsToEEPROM s =
     (let d = fold (saveWaypoint s) [0, 1, 2] (EEPROM_put32 ADDR_MAGIC EEPROM_MAGIC (eeprom_data s))
      in s\<lparr>eeprom_data := d, eeprom_flash := d\<rparr>)"

definition loadWaypoint :: "(nat \<Rightarrow> byte) \<Rightarrow> nat \<Rightarrow> Waypoint" where
  "loadWaypoint d i =
     (let baseAddr = ADDR_WAYPOINT1_LAT + i * 20
      in \<lparr>lat = EEPROM_get64 baseAddr d,
          lon = EEPROM_get64 (baseAddr + 8) d,
          isSetByte = EEPROM_getBool (ADDR_WAYPOINT1_SET + i) d,
          name = wpName (int i + 1)\<rparr>)"

definition loadWaypointsFromEEPROM :: "HTITTracker \<Rightarrow> HTITTracker" where
  "loadWaypointsFromEEPROM s =
     (if EEPROM_get32 ADDR_MAGIC (eeprom_data s) \<noteq> EEPROM_MAGIC
      then saveWaypointsToEEPROM (s\<lparr>waypoints := [unsetWaypoint, unsetWaypoint, unsetWaypoint]\<rparr>)
      else s\<lparr>waypoints := map (loadWaypoint (eeprom_data s)) [0, 1, 2]\<rparr>)"

definition setWaypoint :: "int \<Rightarrow> double \<Rightarrow> double \<Rightarrow> string \<Rightarrow> HTITTracker \<Rightarrow> HTITTracker" where
  "setWaypoint index la lo nm s =
     (if index \<ge> 0 \<and> index < 3
      then saveWaypointsToEEPROM
             (s\<lparr>waypoints := (waypoints s)[nat index := \<lparr>lat = la, lon = lo, isSetByte = 1, name = take 11 nm\<rparr>]\<rparr>)
      else s)"

text \<open>
  The constructor, then \<open>begin()\<close>: \<open>EEPROM.begin(512)\<close> reads the flash copy into RAM and
  \<open>loadWaypointsFromEEPROM\<close> follows. A restart runs both again on whatever the flash holds.
\<close>

definition HTITTracker_init :: "(nat \<Rightarrow> byte) \<Rightarrow> HTITTracker" where
  "HTITTracker_init flash =
     \<lparr>gpsCount = 0, glonassCount = 0, beidouCount = 0, galileoCount = 0, qzssCount = 0,
      totalInView = 0, haveFix = False, homeEstablished = False, homeLat = 0, homeLon = 0,
      currentLat = 0, currentLon = 0, hasValidPosition = False,
      waypoints = [unsetWaypoint, unsetWaypoint, unsetWaypoint],
      activeWaypoint = 0, waypointToSet = 0, waypointToReset = 0,
      currentScreen = SCREEN_MAIN_MENU, menuIndex = 0,
      lastButtonPress = 0, lastActivity = 0, lineBuf = [], lastLCDupdate = 0,
      lastButtonState = True, buttonPressStart = 0, longPressHandled = False,
      eeprom_data = flash, eeprom_flash = flash\<rparr>"

definition begin_tracker :: "(nat \<Rightarrow> byte) \<Rightarrow> HTITTracker" where
  "begin_tracker flash = loadWaypointsFromEEPROM (HTITTracker_init flash)"

definition restart :: "HTITTracker \<Rightarrow> HTITTracker" where
  "restart s = begin_tracker (eeprom_flash s)"

section \<open>C string helpers\<close>

text \<open>\<open>strchr(s, c)\<close>: the suffix that starts at the first \<open>c\<close>, or the null pointer.\<close>

definition strchr :: "string \<Rightarrow> char \<Rightarrow> string option" where
  "strchr s c = (case dropWhile (\<lambda>x. x \<noteq> c) s of [] \<Rightarrow> None | r \<Rightarrow> Some r)"

definition isspace :: "char \<Rightarrow> bool" where
  "isspace c = (of_char c \<in> {32, 9, 10, 11, 12, 13 :: nat})"

definition isdigit :: "char \<Rightarrow> bool" where
  "isdigit c = (48 \<le> (of_char c :: nat) \<and> (of_char c :: nat) \<le> 57)"

fun digitsValue :: "int \<Rightarrow> string \<Rightarrow> int" where
  "digitsValue acc [] = acc"
| "digitsValue acc (c # cs) = (if isdigit c then digitsValue (acc * 10 + (of_char c - 48)) cs else acc)"

text \<open>
  \<open>atoi\<close> is \<open>(int) strtol(s, NULL, 10)\<close>: leading white space, an optional sign, then the
  longest run of digits; no digits give 0, and a value outside the 32-bit \<open>long\<close> of the
  ESP32 saturates.
\<close>

definition saturate32 :: "int \<Rightarrow> int" where
  "saturate32 v = max (- 2147483648) (min 2147483647 v)"

definition atoi :: "string \<Rightarrow> int" where
  "atoi s =
     (case dropWhile isspace s of
        [] \<Rightarrow> 0
      | c # cs \<Rightarrow>
          if c = CHR ''-'' then saturate32 (- digitsValue 0 cs)
          else if c = CHR ''+'' then saturate32 (digitsValue 0 cs)
          else saturate32 (digitsValue 0 (c # cs)))"

section \<open>NMEA sentence parsing\<close>

definition parseGSVinView :: "string \<Rightarrow> int" where
  "parseGSVinView gsvLine =
     (case strchr gsvLine CHR '','' of
        None \<Rightarrow> 0
      | Some p1 \<Rightarrow>
          (case strchr (tl p1) CHR '','' of
             None \<Rightarrow> 0
           | Some p2 \<Rightarrow>
               (case strchr (tl p2) CHR '','' of
                  None \<Rightarrow> 0
                | Some p3 \<Rightarrow> atoi (tl p3))))"

text \<open>
  The scanning loop of \<open>parseGGAfixQuality\<close>:
  \<open>while (*p && commaCount < 6) { if (*p == ',') commaCount++; p++; }\<close>,
  with \<open>n\<close> the commas still to pass.
\<close>

fun skipCommas :: "nat \<Rightarrow> string \<Rightarrow> string" where
  "skipCommas n [] = []"
| "skipCommas n (c # cs) =
     (if n = 0 then c # cs
      else if c = CHR '','' then skipCommas (n - 1) cs
      else skipCommas n cs)"

definition parseGGAfixQuality :: "string \<Rightarrow> int" where
  "parseGGAfixQuality ggaLine =
     (case skipCommas 6 ggaLine of [] \<Rightarrow> 0 | p \<Rightarrow> atoi p)"

text \<open>
  The floating-point unit as seen by \<open>parseGGAPosition\<close>: \<open>atof\<close>, the conversion of an
  \<open>int\<close>, and double addition, division and negation, all on bit patterns.
\<close>

record fpu =
  fp_atof :: "string \<Rightarrow> double"
  fp_of_int :: "int \<Rightarrow> double"
  fp_add :: "double \<Rightarrow> double \<Rightarrow> double"
  fp_div :: "double \<Rightarrow> double \<Rightarrow> double"
  fp_neg :: "double \<Rightarrow> double"

text \<open>The double literal \<open>60.0\<close>.\<close>

definition sixty :: double where "sixty = 0x404E000000000000"

text \<open>
  The field-splitting loop of \<open>parseGGAPosition\<close>: \<open>start\<close> is the pointer to the
  beginning of the current field, the second argument is \<open>p\<close>, and \<open>flds\<close> collects the
  recorded pointers of the array \<open>fields\<close> (\<open>fieldCount\<close> is its length). A recorded field is a pointer into the
  line, so it runs to the end of the line, not to the next comma.
\<close>

fun splitFields :: "string \<Rightarrow> string \<Rightarrow> string list \<Rightarrow> string list" where
  "splitFields start [] flds = flds"
| "splitFields start (c # cs) flds =
     (if length flds < 15
      then (if c = CHR '','' \<or> c = CHR ''*''
            then splitFields cs cs (flds @ [start])
            else splitFields start cs flds)
      else flds)"

definition digitOf :: "char \<Rightarrow> int" where
  "digitOf c = of_char c - 48"

definition parseGGAPosition :: "fpu \<Rightarrow> string \<Rightarrow> (double \<times> double) option" where
  "parseGGAPosition fp ggaLine =
     (let flds = splitFields ggaLine ggaLine [] in
      if length flds < 6 then None
      else
        let latStr = flds ! 2; latDir = flds ! 3 in
        if length latStr < 7 \<or> length latDir < 1 then None
        else
          let latDeg = fp_of_int fp (digitOf (latStr ! 0) * 10 + digitOf (latStr ! 1));
              latMin = fp_atof fp (drop 2 latStr);
              la0 = fp_add fp latDeg (fp_div fp latMin sixty);
              la = (if latDir ! 0 = CHR ''S'' then fp_neg fp la0 else la0);
              lonStr = flds ! 4; lonDir = flds ! 5 in
          if length lonStr < 8 \<or> length lonDir < 1 then None
          else
            let lonDeg = fp_of_int fp (digitOf (lonStr ! 0) * 100 + digitOf (lonStr ! 1) * 10
                                       + digitOf (lonStr ! 2));
                lonMin = fp_atof fp (drop 3 lonStr);
                lo0 = fp_add fp lonDeg (fp_div fp lonMin sixty);
                lo = (if lonDir ! 0 = CHR ''W'' then fp_neg fp lo0 else lo0)
            in Some (la, lo))"

text \<open>
  \<open>processNMEALine\<close>. \<open>strncmp(line, "$GPGSV", 6) == 0\<close> holds when the first six
  characters of the line are that prefix. The HDOP update and \<open>calculateSpeed()\<close> write
  only \<open>lastHDOP\<close> and the speed fields.
\<close>

definition applyGGA :: "fpu \<Rightarrow> string \<Rightarrow> HTITTracker \<Rightarrow> HTITTracker" where
  "applyGGA fp line s =
     (let fixQual = parseGGAfixQuality line;
          s1 = s\<lparr>haveFix := (fixQual > 0)\<rparr>
      in case parseGGAPosition fp line of
           None \<Rightarrow> s1
         | Some (la, lo) \<Rightarrow>
             (let s2 = s1\<lparr>currentLat := la, currentLon := lo, hasValidPosition := True\<rparr>
              in if haveFix s2 \<and> \<not> homeEstablished s2
                 then s2\<lparr>homeLat := la, homeLon := lo, homeEstablished := True\<rparr>
                 else s2))"

definition processNMEALine :: "fpu \<Rightarrow> string \<Rightarrow> HTITTracker \<Rightarrow> HTITTracker" where
  "processNMEALine fp line s =
     (let s1 =
        (if take 6 line = ''$GPGSV'' then s\<lparr>gpsCount := parseGSVinView line\<rparr>
         else if take 6 line = ''$GLGSV'' then s\<lparr>glonassCount := parseGSVinView line\<rparr>
         else if take 6 line = ''$GBGSV'' then s\<lparr>beidouCount := parseGSVinView line\<rparr>
         else if take 6 line = ''$GAGSV'' then s\<lparr>galileoCount := parseGSVinView line\<rparr>
         else if take 6 line = ''$GQGSV'' then s\<lparr>qzssCount := parseGSVinView line\<rparr>
         else if take 6 line = ''$GNGGA'' then applyGGA fp line s
         else s)
      in s1\<lparr>totalInView := gpsCount s1 + glonassCount s1 + beidouCount s1 + galileoCount s1
                              + qzssCount s1\<rparr>)"

text \<open>
  A report that can establish the home point: a \<open>$GNGGA\<close> line with fix quality above 0
  whose position parses.
\<close>

definition fixReportWithPosition :: "fpu \<Rightarrow> string \<Rightarrow> bool" where
  "fixReportWithPosition fp line =
     (take 6 line = ''$GNGGA'' \<and> parseGGAfixQuality line > 0 \<and> parseGGAPosition fp line \<noteq> None)"

text \<open>The value of a run of decimal digits, read left to right.\<close>

definition decimalValue :: "string \<Rightarrow> int" where
  "decimalValue ds = foldl (\<lambda>a c. 10 * a + (of_char c - 48)) 0 ds"

section \<open>Button handling and the screen state machine\<close>

text \<open>
  What one call of \<open>checkButton\<close> did, recorded next to the new state: the long-press
  block ran, the short-press block ran, or neither.
\<close>

datatype ButtonEvent = NoEvent | ShortPress | LongPress

text \<open>The body of the long-press block after the bookkeeping: scroll, or go back to the main menu.\<close>

definition longPressAction :: "HTITTracker \<Rightarrow> HTITTracker" where
  "longPressAction s =
     (if currentScreen s = SCREEN_MAIN_MENU then s\<lparr>menuIndex := (menuIndex s + 1) smod 4\<rparr>
      else if currentScreen s = SCREEN_WAYPOINT_MENU then s\<lparr>menuIndex := (menuIndex s + 1) smod 4\<rparr>
      else if currentScreen s = SCREEN_WAYPOINT_RESET then s\<lparr>menuIndex := (menuIndex s + 1) smod 3\<rparr>
      else if currentScreen s = SCREEN_POWER_MENU then s\<lparr>menuIndex := (menuIndex s + 1) smod 4\<rparr>
      else s\<lparr>currentScreen := SCREEN_MAIN_MENU, menuIndex := 0\<rparr>)"

text \<open>
  One entry of the waypoint menu: an already set waypoint opens the reset/navigate menu,
  an unset one opens the set screen.
\<close>

definition selectWaypointItem :: "nat \<Rightarrow> HTITTracker \<Rightarrow> HTITTracker" where
  "selectWaypointItem k s =
     (if isSet (waypoints s ! k)
      then s\<lparr>currentScreen := SCREEN_WAYPOINT_RESET, waypointToReset := int k, menuIndex := 0\<rparr>
      else s\<lparr>currentScreen := SCREEN_SET_WAYPOINT, waypointToSet := int k\<rparr>)"

text \<open>
  The screen dispatch of the short-press block. \<open>None\<close> is the one branch that does not
  come back: \<open>esp_deep_sleep_start()\<close>. The light sleep of the first power-menu entry
  returns when the button wakes the device, and the code goes on from there.
  \<open>waypointToReset\<close> is only ever assigned 0, 1 or 2, so it indexes inside the array.
\<close>

definition shortPressAction :: "HTITTracker \<Rightarrow> HTITTracker option" where
  "shortPressAction s =
     (if currentScreen s = SCREEN_MAIN_MENU then
        (if menuIndex s = 0 then Some (s\<lparr>currentScreen := SCREEN_STATUS\<rparr>)
         else if menuIndex s = 1 then Some (s\<lparr>currentScreen := SCREEN_WAYPOINT_MENU, menuIndex := 0\<rparr>)
         else if menuIndex s = 2 then Some (s\<lparr>currentScreen := SCREEN_SYSTEM_INFO\<rparr>)
         else if menuIndex s = 3 then Some (s\<lparr>currentScreen := SCREEN_POWER_MENU\<rparr>)
         else Some s)
      else if currentScreen s = SCREEN_WAYPOINT_MENU then
        (if menuIndex s = 0 then Some (selectWaypointItem 0 s)
         else if menuIndex s = 1 then Some (selectWaypointItem 1 s)
         else if menuIndex s = 2 then Some (selectWaypointItem 2 s)
         else if menuIndex s = 3 then Some (s\<lparr>currentScreen := SCREEN_MAIN_MENU, menuIndex := 2\<rparr>)
         else Some s)
      else if currentScreen s = SCREEN_SET_WAYPOINT then
        (if hasValidPosition s \<and> haveFix s
         then Some ((setWaypoint (waypointToSet s) (currentLat s) (currentLon s)
                       (wpName (waypointToSet s + 1)) s)
                     \<lparr>currentScreen := SCREEN_WAYPOINT_MENU, menuIndex := waypointToSet s\<rparr>)
         else Some s)
      else if currentScreen s = SCREEN_WAYPOINT_RESET then
        (if menuIndex s = 0
         then Some (s\<lparr>currentScreen := screenOfInt (4 + waypointToReset s),
                      activeWaypoint := waypointToReset s + 1\<rparr>)
         else if menuIndex s = 1
         then Some ((saveWaypointsToEEPROM
                       (s\<lparr>waypoints := (waypoints s)[nat (waypointToReset s) := unsetWaypoint]\<rparr>))
                     \<lparr>currentScreen := SCREEN_SET_WAYPOINT, waypointToSet := waypointToReset s\<rparr>)
         else if menuIndex s = 2
         then Some (s\<lparr>currentScreen := SCREEN_WAYPOINT_MENU, menuIndex := waypointToReset s\<rparr>)
         else Some s)
      else if currentScreen s = SCREEN_POWER_MENU then
        (if menuIndex s = 0 then Some (s\<lparr>currentScreen := SCREEN_MAIN_MENU, menuIndex := 0\<rparr>)
         else if menuIndex s = 1 then None
         else if menuIndex s = 2 then Some (s\<lparr>currentScreen := SCREEN_STATUS\<rparr>)
         else if menuIndex s = 3 then Some (s\<lparr>currentScreen := SCREEN_MAIN_MENU, menuIndex := 4\<rparr>)
         else Some s)
      else Some (s\<lparr>currentScreen := SCREEN_MAIN_MENU, menuIndex := 0\<rparr>))"

text \<open>
  \<open>checkButton\<close>, with the pin level read by \<open>digitalRead\<close> (\<open>True\<close> is HIGH, the button
  released) and the value of \<open>millis()\<close> as inputs; the calls of \<open>millis()\<close> inside one
  invocation return the same value. After a deep sleep the device restarts when the button
  wakes it, so that branch continues from the restarted tracker.
\<close>

definition checkButton :: "bool \<Rightarrow> millis \<Rightarrow> HTITTracker \<Rightarrow> ButtonEvent \<times> HTITTracker" where
  "checkButton currentButtonState now s =
     (let s1 = (if lastButtonState s \<and> \<not> currentButtonState \<and> now - lastButtonPress s > 200
                then s\<lparr>buttonPressStart := now, longPressHandled := False\<rparr>
                else s);
          long = (\<not> currentButtonState \<and> \<not> longPressHandled s1 \<and>
                  buttonPressStart s1 > 0 \<and> now - buttonPressStart s1 > 1000);
          s2 = (if long
                then longPressAction (s1\<lparr>longPressHandled := True, lastActivity := now\<rparr>)
                else s1);
          released = (\<not> lastButtonState s2 \<and> currentButtonState \<and> \<not> longPressHandled s2);
          short = (released \<and> buttonPressStart s2 > 0 \<and> now - buttonPressStart s2 < 1000);
          ev = (if long then LongPress else if short then ShortPress else NoEvent)
      in if short
         then (case shortPressAction (s2\<lparr>lastButtonPress := now, lastActivity := now\<rparr>) of
                 None \<Rightarrow> (ev, restart s2)
               | Some s3 \<Rightarrow> (ev, s3\<lparr>buttonPressStart := 0, lastButtonState := currentButtonState\<rparr>))
         else if released
         then (ev, s2\<lparr>buttonPressStart := 0, lastButtonState := currentButtonState\<rparr>)
         else (ev, s2\<lparr>lastButtonState := currentButtonState\<rparr>))"

text \<open>
  A run of the handler over a list of samples (pin level, time), one per loop iteration,
  collecting what each call did.
\<close>

fun pollButton :: "(bool \<times> millis) list \<Rightarrow> HTITTracker \<Rightarrow> ButtonEvent list \<times> HTITTracker" where
  "pollButton [] s = ([], s)"
| "pollButton ((pin, now) # rest) s =
     (let (ev, s1) = checkButton pin now s;
          (evs, s2) = pollButton rest s1
      in (ev # evs, s2))"

text \<open>
  Between presses the handler holds no press start that could still fire: while the
  button is up, \<open>buttonPressStart\<close> is 0 or the long press of the last press was handled.
  This holds at power-up and after every call of \<open>checkButton\<close>.
\<close>

definition noPressPending :: "HTITTracker \<Rightarrow> bool" where
  "noPressPending s = (lastButtonState s \<longrightarrow> buttonPressStart s = 0 \<or> longPressHandled s)"

text \<open>The button is down and the press was not accepted: nothing can fire until a new press.\<close>

definition pressIgnored :: "HTITTracker \<Rightarrow> bool" where
  "pressIgnored s = (\<not> lastButtonState s \<and> (buttonPressStart s = 0 \<or> longPressHandled s))"

text \<open>
  The array indices kept in the tracker stay inside the three-element array: this is what
  the indexing in \<open>shortPressAction\<close> relies on.
\<close>

definition indicesInRange :: "HTITTracker \<Rightarrow> bool" where
  "indicesInRange s =
     (length (waypoints s) = 3 \<and> 0 \<le> waypointToSet s \<and> waypointToSet s < 3 \<and>
      0 \<le> waypointToReset s \<and> waypointToReset s < 3)"

section \<open>The polled loop\<close>

text \<open>
  The line assembler of \<open>update\<close>: \<open>lineBuf\<close> holds the \<open>linePos\<close> characters collected so
  far; the line handed to the parser ends at the first NUL.
\<close>

definition feedByte :: "fpu \<Rightarrow> char \<Rightarrow> HTITTracker \<Rightarrow> HTITTracker" where
  "feedByte fp c s =
     (if c = char_of (13::nat) \<or> c = char_of (10::nat)
      then (if length (lineBuf s) > 0
            then (processNMEALine fp (takeWhile (\<lambda>x. x \<noteq> char_of (0::nat)) (lineBuf s)) s)\<lparr>lineBuf := []\<rparr>
            else s)
      else if length (lineBuf s) < 127 then s\<lparr>lineBuf := lineBuf s @ [c]\<rparr>
      else s)"

text \<open>
  \<open>updateLCD\<close> as far as it changes the tracker beyond the display: the waypoint
  navigation screen falls back to the set screen when no waypoint is active.
\<close>

definition updateLCD :: "HTITTracker \<Rightarrow> HTITTracker" where
  "updateLCD s =
     (if (currentScreen s = SCREEN_WAYPOINT1_NAV \<or> currentScreen s = SCREEN_WAYPOINT2_NAV \<or>
          currentScreen s = SCREEN_WAYPOINT3_NAV) \<and> activeWaypoint s = 0
      then s\<lparr>currentScreen := SCREEN_SET_WAYPOINT\<rparr>
      else s)"

text \<open>
  One iteration of \<open>update\<close>: the button, the serial bytes that are waiting, and once
  per second the display.
\<close>

definition update :: "fpu \<Rightarrow> bool \<Rightarrow> millis \<Rightarrow> string \<Rightarrow> HTITTracker \<Rightarrow> HTITTracker" where
  "update fp pin now serial s =
     (let s1 = snd (checkButton pin now s);
          s2 = fold (feedByte fp) serial s1
      in if now - lastLCDupdate s2 \<ge> 1000 then updateLCD (s2\<lparr>lastLCDupdate := now\<rparr>) else s2)"

text \<open>The number of items of a menu screen.\<close>

definition menuItems :: "ScreenType \<Rightarrow> int option" where
  "menuItems scr =
     (if scr = SCREEN_MAIN_MENU then Some 4
      else if scr = SCREEN_WAYPOINT_MENU then Some 4
      else if scr = SCREEN_WAYPOINT_RESET then Some 3
      else if scr = SCREEN_POWER_MENU then Some 4
      else None)"

section \<open>Navigation and battery arithmetic\<close>

text \<open>
  A finite \<open>float\<close> is the real number it denotes and comparisons of floats are exact, so
  the bearing is a real here.
\<close>

definition getCardinalDirection :: "HTITTracker \<Rightarrow> real \<Rightarrow> string" where
  "getCardinalDirection s bearingToHome =
     (if \<not> haveFix s then ''O''
      else if \<not> homeEstablished s then ''N''
      else if bearingToHome \<ge> 337.5 \<or> bearingToHome < 22.5 then ''N''
      else if bearingToHome \<ge> 22.5 \<and> bearingToHome < 67.5 then ''NE''
      else if bearingToHome \<ge> 67.5 \<and> bearingToHome < 112.5 then ''E''
      else if bearingToHome \<ge> 112.5 \<and> bearingToHome < 157.5 then ''SE''
      else if bearingToHome \<ge> 157.5 \<and> bearingToHome < 202.5 then ''S''
      else if bearingToHome \<ge> 202.5 \<and> bearingToHome < 247.5 then ''SW''
      else if bearingToHome \<ge> 247.5 \<and> bearingToHome < 292.5 then ''W''
      else ''NW'')"

text \<open>
  The bucketing in the words of the specification: eight equal buckets of 45 degrees, each
  centred on its compass point, so bucket \<open>k\<close> covers \<open>[45 k - 22.5, 45 k + 22.5)\<close> and
  bucket 8 is north again.
\<close>

definition cardinalLabels :: "string list" where
  "cardinalLabels = [''N'', ''NE'', ''E'', ''SE'', ''S'', ''SW'', ''W'', ''NW'']"

definition cardinalBucket :: "real \<Rightarrow> string" where
  "cardinalBucket b = cardinalLabels ! (nat \<lfloor>(b + 22.5) / 45\<rfloor> mod 8)"

section \<open>Single-precision arithmetic and the battery curve\<close>

text \<open>
  IEEE-754 binary32 with round-to-nearest-even, on the real values of finite floats. A
  float is a whole multiple of \<open>1 / 2 ^ 149\<close> with at most 24 significant bits.
  \<open>float32 x\<close> is the float nearest to \<open>x\<close>: with \<open>\<bar>x\<bar>\<close> scaled by \<open>2 ^ 149\<close>, the spacing
  of the floats around it is \<open>2 ^ j\<close>, where \<open>j\<close> is the number of bits of the integer part
  beyond 24 (0 for subnormals and the first binade), and ties go to the even multiple. Overflow to
  infinity is not represented: \<open>voltageToPercent\<close> computes only on arguments between
  3.30 and 4.20. \<open>float32\<close> is also the conversion of a decimal literal such as \<open>4.20f\<close>.
\<close>

definition roundHalfEven :: "real \<Rightarrow> int" where
  "roundHalfEven y =
     (let f = \<lfloor>y\<rfloor>; r = y - of_int f
      in if r < 1 / 2 then f else if r > 1 / 2 then f + 1 else if even f then f else f + 1)"

definition float32 :: "real \<Rightarrow> real" where
  "float32 x =
     (let X = \<bar>x\<bar> * 2 ^ 149;
          j = nat (bitlen \<lfloor>X\<rfloor> - 24)
      in sgn x * (of_int (roundHalfEven (X / 2 ^ j)) * 2 ^ j / 2 ^ 149))"

text \<open>
  The two steps of \<open>float32\<close> on a scaled magnitude, named for the proofs: the exponent of
  the spacing, and the magnitude rounded to a multiple of the spacing.
\<close>

definition spacingExp :: "real \<Rightarrow> nat" where
  "spacingExp X = nat (bitlen \<lfloor>X\<rfloor> - 24)"

definition scaledRound :: "real \<Rightarrow> real" where
  "scaledRound X = of_int (roundHalfEven (X / 2 ^ spacingExp X)) * 2 ^ spacingExp X"

text \<open>
  The four operations on floats: the exact result, rounded once to the nearest float
  (no fused multiply-add).
\<close>

definition fadd :: "real \<Rightarrow> real \<Rightarrow> real" where "fadd a b = float32 (a + b)"
definition fsub :: "real \<Rightarrow> real \<Rightarrow> real" where "fsub a b = float32 (a - b)"
definition fmul :: "real \<Rightarrow> real \<Rightarrow> real" where "fmul a b = float32 (a * b)"
definition fdiv :: "real \<Rightarrow> real \<Rightarrow> real" where "fdiv a b = float32 (a / b)"

text \<open>
  \<open>roundf\<close>: to the nearest integer, halves away from zero. Its results here are integers
  between 0 and 100, which are floats, and the cast to \<open>int\<close> is exact.
\<close>

definition roundf :: "real \<Rightarrow> int" where
  "roundf x = (if x \<ge> 0 then \<lfloor>x + 1 / 2\<rfloor> else \<lceil>x - 1 / 2\<rceil>)"

text \<open>
  \<open>voltageToPercent\<close> on the value \<open>vb\<close> of a finite float: every literal is a float
  literal, every operation a float operation, in the order the C expression groups them.
\<close>

definition voltageToPercent :: "real \<Rightarrow> int" where
  "voltageToPercent vb =
     (if vb \<ge> float32 4.20 then 100
      else if vb \<ge> float32 4.10 then
        roundf (fadd (float32 95.0)
                  (fmul (fdiv (fsub vb (float32 4.10)) (fsub (float32 4.20) (float32 4.10))) (float32 5.0)))
      else if vb \<ge> float32 4.00 then
        roundf (fadd (float32 85.0)
                  (fmul (fdiv (fsub vb (float32 4.00)) (fsub (float32 4.10) (float32 4.00))) (float32 10.0)))
      else if vb \<ge> float32 3.90 then
        roundf (fadd (float32 70.0)
                  (fmul (fdiv (fsub vb (float32 3.90)) (fsub (float32 4.00) (float32 3.90))) (float32 15.0)))
      else if vb \<ge> float32 3.80 then
        roundf (fadd (float32 50.0)
                  (fmul (fdiv (fsub vb (float32 3.80)) (fsub (float32 3.90) (float32 3.80))) (float32 20.0)))
      else if vb \<ge> float32 3.70 then
        roundf (fadd (float32 30.0)
                  (fmul (fdiv (fsub vb (float32 3.70)) (fsub (float32 3.80) (float32 3.70))) (float32 20.0)))
      else if vb \<ge> float32 3.60 then
        roundf (fadd (float32 15.0)
                  (fmul (fdiv (fsub vb (float32 3.60)) (fsub (float32 3.70) (float32 3.60))) (float32 15.0)))
      else if vb \<ge> float32 3.50 then
        roundf (fadd (float32 5.0)
                  (fmul (fdiv (fsub vb (float32 3.50)) (fsub (float32 3.60) (float32 3.50))) (float32 10.0)))
      else if vb \<ge> float32 3.30 then
        roundf (fmul (fdiv (fsub vb (float32 3.30)) (fsub (float32 3.50) (float32 3.30))) (float32 5.0))
      else 0)"

text \<open>
  The argument as the 32 bits of the \<open>float\<close>: sign, 8 exponent bits, 23 fraction bits.
  Exponent 255 is an infinity (fraction 0) or a NaN; exponent 0 is a subnormal or zero.
\<close>

definition exponent32 :: "32 word \<Rightarrow> nat" where
  "exponent32 w = unat (drop_bit 23 w AND 0xFF)"

definition fraction32 :: "32 word \<Rightarrow> nat" where
  "fraction32 w = unat (w AND 0x7FFFFF)"

definition negative32 :: "32 word \<Rightarrow> bool" where
  "negative32 w = bit w 31"

definition isNaN32 :: "32 word \<Rightarrow> bool" where
  "isNaN32 w = (exponent32 w = 255 \<and> fraction32 w \<noteq> 0)"

definition isInfinite32 :: "32 word \<Rightarrow> bool" where
  "isInfinite32 w = (exponent32 w = 255 \<and> fraction32 w = 0)"

text \<open>The real value of a finite float.\<close>

definition valueOf32 :: "32 word \<Rightarrow> real" where
  "valueOf32 w =
     (let magnitude =
        (if exponent32 w = 0 then real (fraction32 w) / 2 ^ 149
         else real (2 ^ 23 + fraction32 w) * 2 ^ (exponent32 w - 1) / 2 ^ 149)
      in if negative32 w then - magnitude else magnitude)"

text \<open>
  \<open>voltageToPercent\<close> on any bit pattern. Every comparison with a NaN is false, so a NaN
  falls through all branches to \<open>return 0\<close>, as minus infinity does; plus infinity takes
  the first branch.
\<close>

definition voltageToPercentBits :: "32 word \<Rightarrow> int" where
  "voltageToPercentBits w =
     (if isNaN32 w then 0
      else if isInfinite32 w then (if negative32 w then 0 else 100)
      else voltageToPercent (valueOf32 w))"

text \<open>The order \<open><=\<close> of two floats that are not NaN.\<close>

definition lessEq32 :: "32 word \<Rightarrow> 32 word \<Rightarrow> bool" where
  "lessEq32 a b =
     (if isInfinite32 a then (negative32 a \<or> (isInfinite32 b \<and> \<not> negative32 b))
      else if isInfinite32 b then \<not> negative32 b
      else valueOf32 a \<le> valueOf32 b)"

text \<open>
  One linear piece of the curve, without and with its offset, and the whole curve: the
  float value handed to \<open>roundf\<close>.
\<close>

definition curveRise :: "real \<Rightarrow> real \<Rightarrow> real \<Rightarrow> real \<Rightarrow> real" where
  "curveRise lo hi gain vb = fmul (fdiv (fsub vb lo) (fsub hi lo)) gain"

definition curvePiece :: "real \<Rightarrow> real \<Rightarrow> real \<Rightarrow> real \<Rightarrow> real \<Rightarrow> real" where
  "curvePiece base lo hi gain vb = fadd base (curveRise lo hi gain vb)"

definition dischargeCurve :: "real \<Rightarrow> real" where
  "dischargeCurve vb =
     (if vb \<ge> float32 4.20 then 100
      else if vb \<ge> float32 4.10 then curvePiece 95 (float32 4.10) (float32 4.20) 5 vb
      else if vb \<ge> float32 4.00 then curvePiece 85 (float32 4.00) (float32 4.10) 10 vb
      else if vb \<ge> float32 3.90 then curvePiece 70 (float32 3.90) (float32 4.00) 15 vb
      else if vb \<ge> float32 3.80 then curvePiece 50 (float32 3.80) (float32 3.90) 20 vb
      else if vb \<ge> float32 3.70 then curvePiece 30 (float32 3.70) (float32 3.80) 20 vb
      else if vb \<ge> float32 3.60 then curvePiece 15 (float32 3.60) (float32 3.70) 15 vb
      else if vb \<ge> float32 3.50 then curvePiece 5 (float32 3.50) (float32 3.60) 10 vb
      else if vb \<ge> float32 3.30 then curveRise (float32 3.30) (float32 3.50) 5 vb
      else 0)"

section \<open>Example inputs\<close>

text \<open>A flash that was never written: every byte is \<open>0xFF\<close>.\<close>

definition erasedFlash :: "nat \<Rightarrow> byte" where
  "erasedFlash = (\<lambda>_. 255)"

text \<open>
  An arithmetic unit on which the parser can be run: whole numbers only, the bit pattern
  being the number itself. The properties below hold for every unit; this one serves the
  examples.
\<close>

definition wholeNumberFpu :: fpu where
  "wholeNumberFpu =
     \<lparr>fp_atof = (\<lambda>t. word_of_int (digitsValue 0 t)), fp_of_int = word_of_int,
      fp_add = (+), fp_div = (div), fp_neg = uminus\<rparr>"

text \<open>Three reports: no fix yet, a fix at one position, a fix at another position.\<close>

definition ggaNoFix :: string where
  "ggaNoFix = ''$GNGGA,123518,4807.038,N,01131.000,E,0,00,99.9,545.4,M,46.9,M,,*47''"

definition ggaFixA :: string where
  "ggaFixA = ''$GNGGA,123519,4807.038,N,01131.000,E,1,08,0.9,545.4,M,46.9,M,,*47''"

definition ggaFixB :: string where
  "ggaFixB = ''$GNGGA,123520,4907.038,N,01231.000,E,1,08,0.9,545.4,M,46.9,M,,*47''"

text \<open>A report with fix quality 1 and no position fields.\<close>

definition ggaFixNoPosition :: string where
  "ggaFixNoPosition = ''$GNGGA,,,,,,1''"

text \<open>
  Button samples (pin level, \<open>millis()\<close>) from power-up: three long presses scroll the
  main menu to its last item, a short press opens the power menu with the index still 3
  (Back), and a second short press selects Back.
\<close>

definition powerMenuBackPresses :: "(bool \<times> millis) list" where
  "powerMenuBackPresses =
     [(False, 1000), (False, 2100), (True, 2200),
      (False, 3000), (False, 4100), (True, 4200),
      (False, 5000), (False, 6100), (True, 6200),
      (False, 7000), (True, 7100),
      (False, 8000), (True, 8100)]"

text \<open>From power-up: one short press, which opens the status screen at 1100 ms.\<close>

definition openStatusPresses :: "(bool \<times> millis) list" where
  "openStatusPresses = [(False, 1000), (True, 1100)]"

text \<open>
  From power-up to a press in progress on the set-waypoint screen: a long press to the
  Waypoints item, a short press into the waypoint menu, a short press on the unset WP1,
  then the button goes down at 5000 ms.
\<close>

definition toSetWaypointPresses :: "(bool \<times> millis) list" where
  "toSetWaypointPresses =
     [(False, 1000), (False, 2100), (True, 2200),
      (False, 3000), (True, 3100),
      (False, 4000), (True, 4100),
      (False, 5000)]"

text \<open>
  A short press released at 1100 ms, then the button pressed again at 1200 ms, still held
  at 2300 ms and released at 2400 ms.
\<close>

definition heldAfterShortPress :: "(bool \<times> millis) list" where
  "heldAfterShortPress = [(False, 1000), (True, 1100), (False, 1200), (False, 2300), (True, 2400)]"

section \<open>Waypoint store: properties\<close>

text \<open>
  C10. \<open>setWaypoint\<close> with an index outside 0, 1, 2 does nothing at all: the tracker,
  with its three waypoints, the EEPROM image and the flash copy, is returned as it was, so
  no array element is touched and nothing is written.
\<close>

theorem setWaypoint_bad_index_noop:
  "index < 0 \<or> 3 \<le> index \<Longrightarrow> setWaypoint index la lo nm s = s"
  by (auto simp: setWaypoint_def)

theorem setWaypoint_bad_index_noop_witness:
  "((7::int) < 0 \<or> 3 \<le> (7::int)) \<and>
   setWaypoint 7 1 2 ''WP8'' (begin_tracker erasedFlash) = begin_tracker erasedFlash"
  using setWaypoint_bad_index_noop [of 7 1 2 "''WP8''" "begin_tracker erasedFlash"] by simp

lemma put_le_apply:
  "put_le n a w m x = (if a \<le> x \<and> x < a + n then ucast (drop_bit (8 * (x - a)) w) else m x)"
proof (induction n arbitrary: a w m)
  case 0
  then show ?case by auto
next
  case (Suc n)
  show ?case
  proof (cases "a = x")
    case True
    then show ?thesis by (simp add: Suc.IH)
  next
    case False
    have "Suc a \<le> x \<Longrightarrow> 8 * (x - Suc a) + 8 = 8 * (x - a)" by arith
    with False show ?thesis
      by (auto simp: Suc.IH drop_bit_drop_bit)
  qed
qed

lemma get_le_4:
  "get_le 4 a m = ucast (m a) OR push_bit 8 (ucast (m (a + 1)) OR push_bit 8 (ucast (m (a + 2))
      OR push_bit 8 (ucast (m (a + 3)))))"
  by (simp add: eval_nat_numeral)

text \<open>
  What a save leaves in the flag byte of the first waypoint: the low byte of the third
  waypoint's longitude, written after the flag.
\<close>

lemma saved_flag_byte_of_waypoint1:
  "eeprom_flash (saveWaypointsToEEPROM s) 52 = ucast (lon (waypoints s ! 2))"
  by (simp add: saveWaypointsToEEPROM_def saveWaypoint_def Let_def EEPROM_put64_def EEPROM_put32_def
      EEPROM_putBool_def ADDR_WAYPOINT1_LAT_def ADDR_WAYPOINT1_SET_def ADDR_MAGIC_def put_le_apply)

lemma saved_magic:
  "EEPROM_get32 ADDR_MAGIC (eeprom_flash (saveWaypointsToEEPROM s)) = EEPROM_MAGIC"
  by (simp add: saveWaypointsToEEPROM_def saveWaypoint_def Let_def EEPROM_put64_def EEPROM_put32_def
      EEPROM_putBool_def EEPROM_get32_def ADDR_WAYPOINT1_LAT_def ADDR_WAYPOINT1_SET_def ADDR_MAGIC_def
      EEPROM_MAGIC_def put_le_apply get_le_4)

lemma restart_flag_of_waypoint1:
  "isSet (waypoints (restart (saveWaypointsToEEPROM s)) ! 0)
     = (ucast (lon (waypoints s ! 2)) \<noteq> (0 :: byte))"
  using saved_magic [of s] saved_flag_byte_of_waypoint1 [of s]
  by (simp add: restart_def begin_tracker_def loadWaypointsFromEEPROM_def HTITTracker_init_def
      loadWaypoint_def EEPROM_getBool_def ADDR_WAYPOINT1_SET_def isSet_def)

lemma first_waypoint_alone_lost:
  "\<not> isSet (waypoints (restart (setWaypoint 0 la lo nm (begin_tracker erasedFlash))) ! 0)"
proof -
  have "waypoints (begin_tracker erasedFlash) = [unsetWaypoint, unsetWaypoint, unsetWaypoint]"
    by (simp add: begin_tracker_def loadWaypointsFromEEPROM_def HTITTracker_init_def
        saveWaypointsToEEPROM_def Let_def EEPROM_get32_def get_le_4 erasedFlash_def
        EEPROM_MAGIC_def ADDR_MAGIC_def)
  then show ?thesis
    by (simp add: setWaypoint_def restart_flag_of_waypoint1 unsetWaypoint_def)
qed

lemma third_waypoint_longitude_changed:
  "lon (waypoints (setWaypoint 2 0x4048100000000000 0x4027000000000000 ''WP3''
          (begin_tracker erasedFlash)) ! 2) = 0x4027000000000000 \<and>
   lon (waypoints (loadWaypointsFromEEPROM (setWaypoint 2 0x4048100000000000 0x4027000000000000 ''WP3''
          (begin_tracker erasedFlash))) ! 2) = 0x4027000000010000 \<and>
   lon (waypoints (restart (setWaypoint 2 0x4048100000000000 0x4027000000000000 ''WP3''
          (begin_tracker erasedFlash))) ! 2) = 0x4027000000010000"
  by code_simp

lemma first_waypoint_set_before_restart:
  "waypoints s \<noteq> [] \<Longrightarrow> isSet (waypoints (setWaypoint 0 la lo nm s) ! 0)"
  by (cases "waypoints s") (simp_all add: setWaypoint_def saveWaypointsToEEPROM_def Let_def isSet_def)

text \<open>
  C1. The round trip through the store is not exact. \<open>saveWaypointsToEEPROM\<close> and
  \<open>loadWaypointsFromEEPROM\<close> place waypoint \<open>i\<close> at \<open>4 + 20 i\<close>, so the longitude of the
  third waypoint occupies bytes 52 to 59, and the three set-flags are at 52, 53 and 54.
  On a fresh device, the first waypoint set at any position \<open>(la, lo)\<close> is marked set, and
  after a restart it is unset: its flag byte was overwritten by the low byte of the third
  waypoint's longitude. And the third waypoint stored at 48.125 N, 11.5 E (patterns
  \<open>0x4048100000000000\<close> and \<open>0x4027000000000000\<close>) comes back, after a load and after
  a restart, with the longitude pattern \<open>0x4027000000010000\<close>: its third byte is the
  set-flag of that waypoint.
\<close>

theorem waypoint3_longitude_overlaps_flags:
  "isSet (waypoints (setWaypoint 0 la lo nm (begin_tracker erasedFlash)) ! 0) \<and>
   \<not> isSet (waypoints (restart (setWaypoint 0 la lo nm (begin_tracker erasedFlash))) ! 0) \<and>
   lon (waypoints (setWaypoint 2 0x4048100000000000 0x4027000000000000 ''WP3''
          (begin_tracker erasedFlash)) ! 2) = 0x4027000000000000 \<and>
   lon (waypoints (loadWaypointsFromEEPROM (setWaypoint 2 0x4048100000000000 0x4027000000000000 ''WP3''
          (begin_tracker erasedFlash))) ! 2) = 0x4027000000010000 \<and>
   lon (waypoints (restart (setWaypoint 2 0x4048100000000000 0x4027000000000000 ''WP3''
          (begin_tracker erasedFlash))) ! 2) = 0x4027000000010000"
proof -
  have "waypoints (begin_tracker erasedFlash) \<noteq> []"
    by (simp add: begin_tracker_def loadWaypointsFromEEPROM_def HTITTracker_init_def
        saveWaypointsToEEPROM_def Let_def)
  then have "isSet (waypoints (setWaypoint 0 la lo nm (begin_tracker erasedFlash)) ! 0)"
    by (rule first_waypoint_set_before_restart)
  with first_waypoint_alone_lost [of la lo nm] third_waypoint_longitude_changed
  show ?thesis by blast
qed

section \<open>Sentence parsing: properties\<close>

lemma strchr_found:
  "c \<notin> set f \<Longrightarrow> strchr (f @ c # rest) c = Some (c # rest)"
  by (induction f) (auto simp: strchr_def)

lemma strchr_SomeD:
  "strchr s c = Some p \<Longrightarrow> \<exists>pre r. s = pre @ c # r \<and> p = c # r \<and> c \<notin> set pre"
proof -
  assume a: "strchr s c = Some p"
  then have p: "dropWhile (\<lambda>x. x \<noteq> c) s = p" and ne: "p \<noteq> []"
    by (auto simp: strchr_def split: list.splits)
  have s: "s = takeWhile (\<lambda>x. x \<noteq> c) s @ p" using p by (metis takeWhile_dropWhile_id)
  have "hd p = c" using p ne hd_dropWhile [of "\<lambda>x. x \<noteq> c" s] by auto
  then obtain r where r: "p = c # r" using ne by (cases p) auto
  have "c \<notin> set (takeWhile (\<lambda>x. x \<noteq> c) s)" by (auto dest: set_takeWhileD)
  with s r show ?thesis by blast
qed

lemma digitsValue_digits:
  "\<forall>c \<in> set ds. isdigit c \<Longrightarrow> rest = [] \<or> \<not> isdigit (hd rest) \<Longrightarrow>
   digitsValue acc (ds @ rest) = foldl (\<lambda>a c. 10 * a + (of_char c - 48)) acc ds"
proof (induction ds arbitrary: acc)
  case Nil
  then show ?case by (cases rest) auto
next
  case (Cons d ds)
  then show ?case by (simp add: mult.commute)
qed

lemma isdigit_int: "isdigit c \<Longrightarrow> (48::int) \<le> of_char c"
proof -
  assume "isdigit c"
  then have "48 \<le> (of_char c :: nat)" by (simp add: isdigit_def)
  then have "int 48 \<le> int (of_char c)" by (simp only: of_nat_le_iff)
  then show ?thesis by (simp add: of_nat_of_char)
qed

lemma foldl_digits_nonneg:
  "\<forall>c \<in> set ds. isdigit c \<Longrightarrow> (0::int) \<le> acc \<Longrightarrow>
   0 \<le> foldl (\<lambda>a c. 10 * a + (of_char c - 48)) acc ds"
proof (induction ds arbitrary: acc)
  case Nil
  then show ?case by simp
next
  case (Cons d ds)
  have "(48::int) \<le> of_char d" using Cons.prems(1) by (simp add: isdigit_int)
  with Cons show ?case by simp
qed

lemma isdigit_not_space: "isdigit c \<Longrightarrow> \<not> isspace c"
  by (auto simp: isdigit_def isspace_def)

lemma isdigit_not_sign: "isdigit c \<Longrightarrow> c \<noteq> CHR ''-'' \<and> c \<noteq> CHR ''+''"
  by (auto simp: isdigit_def)

lemma atoi_digits_saturating:
  assumes ne: "ds \<noteq> []" and dig: "\<forall>c \<in> set ds. isdigit c"
    and rest: "rest = [] \<or> \<not> isdigit (hd rest)"
  shows "atoi (ds @ rest) = min 2147483647 (decimalValue ds)"
proof -
  obtain d ds' where ds: "ds = d # ds'" using ne by (cases ds) auto
  have d: "isdigit d" using dig ds by simp
  have dv: "digitsValue 0 (ds @ rest) = decimalValue ds"
    using digitsValue_digits [OF dig rest, of 0] by (simp add: decimalValue_def)
  have nn: "0 \<le> decimalValue ds"
    using foldl_digits_nonneg [OF dig, of 0] by (simp add: decimalValue_def)
  have "atoi (ds @ rest) = saturate32 (digitsValue 0 (ds @ rest))"
    using d isdigit_not_space [OF d] isdigit_not_sign [OF d] by (simp add: atoi_def ds)
  also have "\<dots> = min 2147483647 (decimalValue ds)" using dv nn by (simp add: saturate32_def)
  finally show ?thesis .
qed

lemma parseGSVinView_three_commas:
  assumes "CHR '','' \<notin> set f0" "CHR '','' \<notin> set f1" "CHR '','' \<notin> set f2"
  shows "parseGSVinView (f0 @ CHR '','' # f1 @ CHR '','' # f2 @ CHR '','' # r) = atoi r"
  using assms by (simp add: parseGSVinView_def strchr_found)

lemma count_commas_strchr:
  "strchr s c = Some p \<Longrightarrow>
   length (filter (\<lambda>x. x = c) s) = Suc (length (filter (\<lambda>x. x = c) (tl p)))"
proof -
  assume "strchr s c = Some p"
  then obtain pre r where "s = pre @ c # r" "p = c # r" "c \<notin> set pre"
    using strchr_SomeD by blast
  moreover have "filter (\<lambda>x. x = c) pre = []" using \<open>c \<notin> set pre\<close> by (induction pre) auto
  ultimately show ?thesis by simp
qed

lemma parseGSVinView_missing_comma:
  assumes "length (filter (\<lambda>x. x = CHR '','') line) < 3"
  shows "parseGSVinView line = 0"
proof (cases "strchr line CHR '',''")
  case None
  then show ?thesis by (simp add: parseGSVinView_def)
next
  case (Some p1)
  note c1 = count_commas_strchr [OF Some]
  show ?thesis
  proof (cases "strchr (tl p1) CHR '',''")
    case None
    with Some show ?thesis by (simp add: parseGSVinView_def)
  next
    case (Some p2)
    note c2 = count_commas_strchr [OF Some]
    show ?thesis
    proof (cases "strchr (tl p2) CHR '',''")
      case None
      with Some \<open>strchr line CHR '','' = Some p1\<close> show ?thesis by (simp add: parseGSVinView_def)
    next
      case (Some p3)
      from count_commas_strchr [OF Some] c1 c2 assms show ?thesis by simp
    qed
  qed
qed

text \<open>
  C5, as the code has it. A line made of three comma-free fields (the first holds the
  talker and sentence id, such as \<open>$GPGSV\<close>), then a fourth field that is a non-empty run
  of digits, ended by the end of the line or by any character that is not a digit (the
  comma before the next field, the \<open>*\<close> before the checksum): \<open>parseGSVinView\<close> returns
  the value of the fourth field capped at 2147483647, so exactly that value whenever an
  \<open>int\<close> can hold it. A line with fewer than three commas gives 0.
\<close>

theorem parseGSVinView_field3:
  "(CHR '','' \<notin> set f0 \<and> CHR '','' \<notin> set f1 \<and> CHR '','' \<notin> set f2 \<and>
    f3 \<noteq> [] \<and> (\<forall>c \<in> set f3. isdigit c) \<and> (rest = [] \<or> \<not> isdigit (hd rest))
    \<longrightarrow> parseGSVinView (f0 @ CHR '','' # f1 @ CHR '','' # f2 @ CHR '','' # f3 @ rest)
          = min 2147483647 (decimalValue f3) \<and>
        (decimalValue f3 \<le> 2147483647
           \<longrightarrow> parseGSVinView (f0 @ CHR '','' # f1 @ CHR '','' # f2 @ CHR '','' # f3 @ rest)
                 = decimalValue f3))
   \<and> (length (filter (\<lambda>x. x = CHR '','') line) < 3 \<longrightarrow> parseGSVinView line = 0)"
proof (intro conjI impI)
  assume a: "CHR '','' \<notin> set f0 \<and> CHR '','' \<notin> set f1 \<and> CHR '','' \<notin> set f2 \<and>
    f3 \<noteq> [] \<and> (\<forall>c \<in> set f3. isdigit c) \<and> (rest = [] \<or> \<not> isdigit (hd rest))"
  then have "parseGSVinView (f0 @ CHR '','' # f1 @ CHR '','' # f2 @ CHR '','' # f3 @ rest) = atoi (f3 @ rest)"
    by (simp add: parseGSVinView_three_commas)
  also have "\<dots> = min 2147483647 (decimalValue f3)" using a by (simp add: atoi_digits_saturating)
  finally show c: "parseGSVinView (f0 @ CHR '','' # f1 @ CHR '','' # f2 @ CHR '','' # f3 @ rest)
          = min 2147483647 (decimalValue f3)" .
  assume "decimalValue f3 \<le> 2147483647"
  with c show "parseGSVinView (f0 @ CHR '','' # f1 @ CHR '','' # f2 @ CHR '','' # f3 @ rest) = decimalValue f3"
    by simp
next
  assume "length (filter (\<lambda>x. x = CHR '','') line) < 3"
  then show "parseGSVinView line = 0" by (rule parseGSVinView_missing_comma)
qed

theorem parseGSVinView_field3_witness:
  "parseGSVinView ''$GPGSV,1,1,08*79'' = min 2147483647 8 \<and>
   parseGSVinView ''$GPGSV,1,1,08*79'' = 8 \<and> parseGSVinView ''$GLGSV,3,1'' = 0"
  using parseGSVinView_field3 [of "''$GPGSV''" "''1''" "''1''" "''08''" "''*79''" "''$GLGSV,3,1''"]
  by (simp add: isdigit_def decimalValue_def)

text \<open>
  C5 as stated fails when the integer in the fourth field is too large for an \<open>int\<close>:
  the field \<open>99999999999\<close> comes back as 2147483647.
\<close>

theorem parseGSVinView_overflow_counterexample:
  "parseGSVinView ''$GPGSV,3,1,99999999999,01'' = 2147483647 \<and>
   decimalValue ''99999999999'' = 99999999999"
  by code_simp

section \<open>The home point\<close>

lemma applyGGA_home_kept:
  "homeEstablished s \<Longrightarrow>
   homeEstablished (applyGGA fp line s) \<and> homeLat (applyGGA fp line s) = homeLat s \<and>
   homeLon (applyGGA fp line s) = homeLon s"
  by (simp add: applyGGA_def Let_def split: option.splits prod.splits)

lemma processNMEALine_home_kept:
  "homeEstablished s \<Longrightarrow>
   homeEstablished (processNMEALine fp line s) \<and>
   homeLat (processNMEALine fp line s) = homeLat s \<and>
   homeLon (processNMEALine fp line s) = homeLon s"
  by (simp add: processNMEALine_def Let_def applyGGA_home_kept)

lemma fold_processNMEALine_home_kept:
  "homeEstablished s \<Longrightarrow>
   homeEstablished (fold (processNMEALine fp) ls s) \<and>
   homeLat (fold (processNMEALine fp) ls s) = homeLat s \<and>
   homeLon (fold (processNMEALine fp) ls s) = homeLon s"
proof (induction ls arbitrary: s)
  case Nil
  then show ?case by simp
next
  case (Cons l ls)
  from processNMEALine_home_kept [OF Cons.prems, of fp l] Cons.IH [of "processNMEALine fp l s"]
  show ?case by simp
qed

lemma applyGGA_no_home:
  "\<not> homeEstablished s \<Longrightarrow>
   \<not> (parseGGAfixQuality line > 0 \<and> parseGGAPosition fp line \<noteq> None) \<Longrightarrow>
   \<not> homeEstablished (applyGGA fp line s)"
  by (auto simp: applyGGA_def Let_def split: option.splits prod.splits)

lemma processNMEALine_no_home:
  "\<not> homeEstablished s \<Longrightarrow> \<not> fixReportWithPosition fp line \<Longrightarrow>
   \<not> homeEstablished (processNMEALine fp line s)"
  by (auto simp: processNMEALine_def Let_def fixReportWithPosition_def applyGGA_no_home)

lemma fold_processNMEALine_no_home:
  "\<not> homeEstablished s \<Longrightarrow> \<forall>l \<in> set ls. \<not> fixReportWithPosition fp l \<Longrightarrow>
   \<not> homeEstablished (fold (processNMEALine fp) ls s)"
proof (induction ls arbitrary: s)
  case Nil
  then show ?case by simp
next
  case (Cons l ls)
  from Cons.prems have "\<not> homeEstablished (processNMEALine fp l s)"
    by (simp add: processNMEALine_no_home)
  with Cons show ?case by simp
qed

lemma processNMEALine_sets_home:
  assumes "\<not> homeEstablished s" "take 6 line = ''$GNGGA''" "parseGGAfixQuality line > 0"
    "parseGGAPosition fp line = Some (la, lo)"
  shows "homeEstablished (processNMEALine fp line s) \<and>
         homeLat (processNMEALine fp line s) = la \<and>
         homeLon (processNMEALine fp line s) = lo"
  using assms by (simp add: processNMEALine_def applyGGA_def Let_def)

text \<open>
  C4. From a tracker without a home point, let the lines \<open>before\<close> contain no \<open>$GNGGA\<close>
  report that has both a fix quality above 0 and a position that parses, and let \<open>line\<close>
  be such a report with position \<open>(la, lo)\<close>. Then home is still not established after
  \<open>before\<close>, and after \<open>line\<close> and any further lines \<open>after\<close>, whatever they report, home
  is established and is exactly \<open>(la, lo)\<close>.
\<close>

theorem home_established_once:
  assumes "\<not> homeEstablished s"
    and "\<forall>l \<in> set before. \<not> fixReportWithPosition fp l"
    and "take 6 line = ''$GNGGA''"
    and "parseGGAfixQuality line > 0"
    and "parseGGAPosition fp line = Some (la, lo)"
  shows "\<not> homeEstablished (fold (processNMEALine fp) before s) \<and>
         homeEstablished (fold (processNMEALine fp) (before @ line # after) s) \<and>
         homeLat (fold (processNMEALine fp) (before @ line # after) s) = la \<and>
         homeLon (fold (processNMEALine fp) (before @ line # after) s) = lo"
proof -
  let ?s0 = "fold (processNMEALine fp) before s"
  let ?s1 = "processNMEALine fp line ?s0"
  have n: "\<not> homeEstablished ?s0" using assms(1,2) by (rule fold_processNMEALine_no_home)
  have h: "homeEstablished ?s1 \<and> homeLat ?s1 = la \<and> homeLon ?s1 = lo"
    using n assms(3,4,5) by (rule processNMEALine_sets_home)
  then have "homeEstablished ?s1" by simp
  from fold_processNMEALine_home_kept [OF this, of fp after] h n show ?thesis by simp
qed

theorem home_established_once_witness:
  "\<not> homeEstablished (fold (processNMEALine wholeNumberFpu) [ggaNoFix] (begin_tracker erasedFlash)) \<and>
   homeEstablished (fold (processNMEALine wholeNumberFpu) ([ggaNoFix] @ ggaFixA # [ggaFixB])
                      (begin_tracker erasedFlash)) \<and>
   homeLat (fold (processNMEALine wholeNumberFpu) ([ggaNoFix] @ ggaFixA # [ggaFixB])
              (begin_tracker erasedFlash)) = 48 \<and>
   homeLon (fold (processNMEALine wholeNumberFpu) ([ggaNoFix] @ ggaFixA # [ggaFixB])
              (begin_tracker erasedFlash)) = 11"
proof -
  have 1: "\<not> homeEstablished (begin_tracker erasedFlash)" by code_simp
  have 2: "\<forall>l \<in> set [ggaNoFix]. \<not> fixReportWithPosition wholeNumberFpu l" by code_simp
  have 3: "take 6 ggaFixA = ''$GNGGA''" by code_simp
  have 4: "parseGGAfixQuality ggaFixA > 0" by code_simp
  have 5: "parseGGAPosition wholeNumberFpu ggaFixA = Some (48, 11)" by code_simp
  show ?thesis by (rule home_established_once [OF 1 2 3 4 5])
qed

section \<open>Button handling: properties\<close>

lemma saveWaypointsToEEPROM_fields:
  "waypoints (saveWaypointsToEEPROM s) = waypoints s \<and>
   waypointToSet (saveWaypointsToEEPROM s) = waypointToSet s \<and>
   waypointToReset (saveWaypointsToEEPROM s) = waypointToReset s"
  by (simp add: saveWaypointsToEEPROM_def Let_def)

lemma indicesInRange_begin: "indicesInRange (begin_tracker f)"
  by (simp add: indicesInRange_def begin_tracker_def loadWaypointsFromEEPROM_def
      HTITTracker_init_def saveWaypointsToEEPROM_fields)

lemma indicesInRange_setWaypoint:
  "indicesInRange s \<Longrightarrow> indicesInRange (setWaypoint i la lo nm s)"
  by (simp add: indicesInRange_def setWaypoint_def saveWaypointsToEEPROM_fields)

lemma indicesInRange_longPressAction:
  "indicesInRange s \<Longrightarrow> indicesInRange (longPressAction s)"
  by (simp add: indicesInRange_def longPressAction_def)

lemma indicesInRange_shortPressAction:
  "indicesInRange s \<Longrightarrow> shortPressAction s = Some s' \<Longrightarrow> indicesInRange s'"
  using indicesInRange_setWaypoint
    [of s "waypointToSet s" "currentLat s" "currentLon s" "wpName (waypointToSet s + 1)"]
  by (auto simp: indicesInRange_def shortPressAction_def selectWaypointItem_def
      saveWaypointsToEEPROM_fields split: if_splits)

lemma indicesInRange_checkButton:
  assumes "indicesInRange s"
  shows "indicesInRange (snd (checkButton pin now s))"
proof -
  have upd: "\<And>t a b c d e. indicesInRange t \<Longrightarrow>
      indicesInRange (t\<lparr>buttonPressStart := a\<rparr>) \<and> indicesInRange (t\<lparr>longPressHandled := b\<rparr>) \<and>
      indicesInRange (t\<lparr>lastActivity := c\<rparr>) \<and> indicesInRange (t\<lparr>lastButtonPress := d\<rparr>) \<and>
      indicesInRange (t\<lparr>lastButtonState := e\<rparr>)"
    by (simp add: indicesInRange_def)
  show ?thesis
    using assms
    by (auto simp: checkButton_def Let_def upd indicesInRange_longPressAction restart_def
        indicesInRange_begin split: option.splits
        dest!: indicesInRange_shortPressAction [rotated])
qed

lemma indicesInRange_pollButton:
  "indicesInRange s \<Longrightarrow> indicesInRange (snd (pollButton samples s))"
proof (induction samples arbitrary: s)
  case Nil
  then show ?case by simp
next
  case (Cons x xs)
  obtain pin now where x: "x = (pin, now)" by (cases x)
  from Cons.prems have "indicesInRange (snd (checkButton pin now s))"
    by (rule indicesInRange_checkButton)
  from Cons.IH [OF this] show ?case
    by (auto simp: x Let_def split: prod.splits)
qed

lemma longPressAction_button_fields:
  "buttonPressStart (longPressAction s) = buttonPressStart s \<and>
   longPressHandled (longPressAction s) = longPressHandled s \<and>
   lastButtonState (longPressAction s) = lastButtonState s"
  by (simp add: longPressAction_def)

lemma checkButton_press_accepted:
  assumes "lastButtonState s" "now - lastButtonPress s > 200"
  shows "fst (checkButton False now s) = NoEvent \<and>
         buttonPressStart (snd (checkButton False now s)) = now \<and>
         \<not> longPressHandled (snd (checkButton False now s)) \<and>
         \<not> lastButtonState (snd (checkButton False now s))"
  using assms by (simp add: checkButton_def Let_def)

lemma checkButton_held_idle:
  assumes "\<not> lastButtonState s" "\<not> longPressHandled s" "\<not> now - buttonPressStart s > 1000"
  shows "fst (checkButton False now s) = NoEvent \<and>
         buttonPressStart (snd (checkButton False now s)) = buttonPressStart s \<and>
         \<not> longPressHandled (snd (checkButton False now s)) \<and>
         \<not> lastButtonState (snd (checkButton False now s))"
  using assms by (simp add: checkButton_def Let_def)

lemma checkButton_held_fires:
  assumes "\<not> lastButtonState s" "\<not> longPressHandled s" "buttonPressStart s \<noteq> 0"
    "now - buttonPressStart s > 1000"
  shows "fst (checkButton False now s) = LongPress \<and>
         longPressHandled (snd (checkButton False now s)) \<and>
         \<not> lastButtonState (snd (checkButton False now s))"
  using assms
  by (simp add: checkButton_def Let_def longPressAction_button_fields word_greater_zero_iff)

lemma checkButton_held_handled:
  assumes "\<not> lastButtonState s" "longPressHandled s"
  shows "fst (checkButton False now s) = NoEvent \<and>
         longPressHandled (snd (checkButton False now s)) \<and>
         \<not> lastButtonState (snd (checkButton False now s))"
  using assms by (simp add: checkButton_def Let_def)

lemma checkButton_release_handled:
  assumes "longPressHandled s"
  shows "fst (checkButton True now s) = NoEvent"
  using assms by (simp add: checkButton_def Let_def)

lemma pollButton_append:
  "pollButton (xs @ ys) s =
     (fst (pollButton xs s) @ fst (pollButton ys (snd (pollButton xs s))),
      snd (pollButton ys (snd (pollButton xs s))))"
  by (induction xs arbitrary: s) (auto simp: Let_def split: prod.splits)

lemma pollButton_Cons:
  "pollButton ((pin, now) # rest) s =
     (fst (checkButton pin now s) # fst (pollButton rest (snd (checkButton pin now s))),
      snd (pollButton rest (snd (checkButton pin now s))))"
  by (simp add: Let_def split: prod.splits)

lemma held_after_long_press:
  assumes "\<not> lastButtonState s" "longPressHandled s"
  shows "count_list (fst (pollButton (map (Pair False) ts) s)) LongPress = 0 \<and>
         count_list (fst (pollButton (map (Pair False) ts) s)) ShortPress = 0 \<and>
         longPressHandled (snd (pollButton (map (Pair False) ts) s))"
  using assms
proof (induction ts arbitrary: s)
  case Nil
  then show ?case by simp
next
  case (Cons t ts)
  from checkButton_held_handled [OF Cons.prems, of t] Cons.IH [of "snd (checkButton False t s)"]
  show ?case by (simp add: pollButton_Cons del: pollButton.simps)
qed

lemma held_before_long_press:
  assumes "\<not> lastButtonState s" "\<not> longPressHandled s" "buttonPressStart s \<noteq> 0"
    "\<exists>t \<in> set ts. t - buttonPressStart s > 1000"
  shows "count_list (fst (pollButton (map (Pair False) ts) s)) LongPress = 1 \<and>
         count_list (fst (pollButton (map (Pair False) ts) s)) ShortPress = 0 \<and>
         longPressHandled (snd (pollButton (map (Pair False) ts) s))"
  using assms
proof (induction ts arbitrary: s)
  case Nil
  then show ?case by simp
next
  case (Cons t ts)
  show ?case
  proof (cases "t - buttonPressStart s > 1000")
    case True
    note f = checkButton_held_fires [OF Cons.prems(1,2,3) True]
    from f have "\<not> lastButtonState (snd (checkButton False t s))"
      "longPressHandled (snd (checkButton False t s))" by simp_all
    from held_after_long_press [OF this, of ts] f
    show ?thesis by (simp add: pollButton_Cons del: pollButton.simps)
  next
    case False
    note i = checkButton_held_idle [OF Cons.prems(1,2) False]
    from Cons.prems(4) False i
    have ex: "\<exists>u \<in> set ts. u - buttonPressStart (snd (checkButton False t s)) > 1000" by auto
    from i Cons.prems(3) have "\<not> lastButtonState (snd (checkButton False t s))"
      "\<not> longPressHandled (snd (checkButton False t s))"
      "buttonPressStart (snd (checkButton False t s)) \<noteq> 0" by simp_all
    from Cons.IH [OF this ex] i
    show ?thesis by (simp add: pollButton_Cons del: pollButton.simps)
  qed
qed

lemma noPressPending_begin: "noPressPending (begin_tracker f)"
  by (simp add: noPressPending_def begin_tracker_def loadWaypointsFromEEPROM_def
      HTITTracker_init_def saveWaypointsToEEPROM_def Let_def)

lemma shortPressAction_button_fields:
  "shortPressAction s = Some s' \<Longrightarrow>
   buttonPressStart s' = buttonPressStart s \<and> longPressHandled s' = longPressHandled s \<and>
   lastButtonState s' = lastButtonState s"
  by (auto simp: shortPressAction_def selectWaypointItem_def setWaypoint_def
      saveWaypointsToEEPROM_def Let_def split: if_splits)

lemma noPressPending_checkButton:
  "noPressPending s \<Longrightarrow> noPressPending (snd (checkButton pin now s))"
  using noPressPending_begin
  by (auto simp: noPressPending_def checkButton_def Let_def longPressAction_button_fields restart_def
      word_greater_zero_iff split: option.splits dest: shortPressAction_button_fields)

lemma noPressPending_pollButton:
  "noPressPending s \<Longrightarrow> noPressPending (snd (pollButton samples s))"
proof (induction samples arbitrary: s)
  case Nil
  then show ?case by simp
next
  case (Cons x xs)
  obtain pin now where x: "x = (pin, now)" by (cases x)
  from Cons.prems have "noPressPending (snd (checkButton pin now s))"
    by (rule noPressPending_checkButton)
  from Cons.IH [OF this] show ?case
    by (auto simp: x Let_def split: prod.splits)
qed

text \<open>The serial bytes and the display refresh of one pass of the loop leave the button fields alone.\<close>

lemma feedByte_button_fields:
  "lastButtonState (feedByte fp c s) = lastButtonState s \<and>
   buttonPressStart (feedByte fp c s) = buttonPressStart s \<and>
   longPressHandled (feedByte fp c s) = longPressHandled s"
  by (simp add: feedByte_def processNMEALine_def applyGGA_def Let_def split: option.splits prod.splits)

lemma fold_feedByte_button_fields:
  "lastButtonState (fold (feedByte fp) cs s) = lastButtonState s \<and>
   buttonPressStart (fold (feedByte fp) cs s) = buttonPressStart s \<and>
   longPressHandled (fold (feedByte fp) cs s) = longPressHandled s"
proof (induction cs arbitrary: s)
  case Nil
  then show ?case by simp
next
  case (Cons c cs)
  from Cons.IH [of "feedByte fp c s"] feedByte_button_fields [of fp c s] show ?case by simp
qed

lemma noPressPending_update:
  assumes "noPressPending s"
  shows "noPressPending (update fp pin now serial s)"
proof -
  let ?s1 = "snd (checkButton pin now s)"
  from assms have "noPressPending ?s1" by (rule noPressPending_checkButton)
  with fold_feedByte_button_fields [of fp serial ?s1]
  show ?thesis by (simp add: update_def Let_def updateLCD_def noPressPending_def)
qed

lemma checkButton_press_debounced:
  assumes "lastButtonState s" "noPressPending s" "\<not> now - lastButtonPress s > 200"
  shows "fst (checkButton False now s) = NoEvent \<and> pressIgnored (snd (checkButton False now s))"
  using assms by (auto simp: checkButton_def Let_def noPressPending_def pressIgnored_def)

lemma checkButton_held_ignored:
  assumes "pressIgnored s"
  shows "fst (checkButton False now s) = NoEvent \<and> pressIgnored (snd (checkButton False now s))"
  using assms by (auto simp: checkButton_def Let_def pressIgnored_def)

lemma checkButton_release_ignored:
  assumes "pressIgnored s"
  shows "fst (checkButton True now s) = NoEvent"
  using assms by (auto simp: checkButton_def Let_def pressIgnored_def)

lemma held_while_ignored:
  assumes "pressIgnored s"
  shows "count_list (fst (pollButton (map (Pair False) ts) s)) LongPress = 0 \<and>
         count_list (fst (pollButton (map (Pair False) ts) s)) ShortPress = 0 \<and>
         pressIgnored (snd (pollButton (map (Pair False) ts) s))"
  using assms
proof (induction ts arbitrary: s)
  case Nil
  then show ?case by simp
next
  case (Cons t ts)
  from checkButton_held_ignored [OF Cons.prems, of t] Cons.IH [of "snd (checkButton False t s)"]
  show ?case by (simp add: pollButton_Cons del: pollButton.simps)
qed

lemma debounced_press_ignored:
  assumes "lastButtonState s" "noPressPending s" "\<not> t0 - lastButtonPress s > 200"
  shows "count_list (fst (pollButton ((False, t0) # map (Pair False) held @ [(True, tr)]) s))
           LongPress = 0 \<and>
         count_list (fst (pollButton ((False, t0) # map (Pair False) held @ [(True, tr)]) s))
           ShortPress = 0"
proof -
  let ?s1 = "snd (checkButton False t0 s)"
  let ?s2 = "snd (pollButton (map (Pair False) held) ?s1)"
  note p = checkButton_press_debounced [OF assms]
  then have "pressIgnored ?s1" by simp
  note h = held_while_ignored [OF this, of held]
  then have "pressIgnored ?s2" by simp
  note r = checkButton_release_ignored [OF this, of tr]
  from p h r show ?thesis
    by (simp add: pollButton_Cons pollButton_append del: pollButton.simps(2))
qed

text \<open>
  C8, as the code has it. The button is up, it goes down at \<open>t0\<close>, a non-zero
  \<open>millis()\<close> value more than 200 ms after the last short press (so the debounce check
  accepts the press), it is sampled down at the times \<open>held\<close>, one of them more than 1000 ms
  after \<open>t0\<close>, and it is released at \<open>tr\<close>. Over the whole press the handler runs the
  long-press block exactly once and the short-press block not at all.
  A press that goes down at \<open>t0'\<close>, 200 ms or less after the last short press, in a state
  with no press pending, is ignored: however long it is held, neither block runs. Every
  state reached from power-up by calls of the handler, or by whole passes of \<open>update\<close>, has
  no press pending.
\<close>

theorem long_press_exactly_once:
  assumes "lastButtonState s" "t0 \<noteq> 0" "t0 - lastButtonPress s > 200"
    and "\<exists>t \<in> set held. t - t0 > 1000"
  shows "count_list (fst (pollButton ((False, t0) # map (Pair False) held @ [(True, tr)]) s))
           LongPress = 1 \<and>
         count_list (fst (pollButton ((False, t0) # map (Pair False) held @ [(True, tr)]) s))
           ShortPress = 0 \<and>
         (lastButtonState s' \<and> noPressPending s' \<and> \<not> t0' - lastButtonPress s' > 200 \<longrightarrow>
            count_list (fst (pollButton ((False, t0') # map (Pair False) held' @ [(True, tr')]) s'))
              LongPress = 0 \<and>
            count_list (fst (pollButton ((False, t0') # map (Pair False) held' @ [(True, tr')]) s'))
              ShortPress = 0) \<and>
         noPressPending (begin_tracker flash) \<and>
         (noPressPending s'' \<longrightarrow> noPressPending (snd (pollButton samples s''))) \<and>
         (noPressPending s3 \<longrightarrow> noPressPending (update fp pin now serial s3))"
proof -
  let ?s1 = "snd (checkButton False t0 s)"
  let ?s2 = "snd (pollButton (map (Pair False) held) ?s1)"
  note p = checkButton_press_accepted [OF assms(1,3)]
  from p assms(2,4) have a: "\<not> lastButtonState ?s1" "\<not> longPressHandled ?s1"
    "buttonPressStart ?s1 \<noteq> 0" "\<exists>t \<in> set held. t - buttonPressStart ?s1 > 1000" by simp_all
  note h = held_before_long_press [OF a]
  then have "longPressHandled ?s2" by simp
  note r = checkButton_release_handled [OF this, of tr]
  from p h r have first:
    "count_list (fst (pollButton ((False, t0) # map (Pair False) held @ [(True, tr)]) s))
       LongPress = 1 \<and>
     count_list (fst (pollButton ((False, t0) # map (Pair False) held @ [(True, tr)]) s))
       ShortPress = 0"
    by (simp add: pollButton_Cons pollButton_append del: pollButton.simps(2))
  from first debounced_press_ignored [of s' t0' held' tr'] noPressPending_begin [of flash]
    noPressPending_pollButton [of s'' samples] noPressPending_update [of s3 fp pin now serial]
  show ?thesis by blast
qed

theorem long_press_exactly_once_witness:
  "count_list (fst (pollButton ((False, 1000) # map (Pair False) [1500, 2200, 2600] @ [(True, 2700)])
                      (begin_tracker erasedFlash))) LongPress = 1 \<and>
   count_list (fst (pollButton ((False, 1000) # map (Pair False) [1500, 2200, 2600] @ [(True, 2700)])
                      (begin_tracker erasedFlash))) ShortPress = 0 \<and>
   count_list (fst (pollButton ((False, 1200) # map (Pair False) [2300] @ [(True, 2400)])
                      (snd (pollButton openStatusPresses (begin_tracker erasedFlash))))) LongPress = 0 \<and>
   count_list (fst (pollButton ((False, 1200) # map (Pair False) [2300] @ [(True, 2400)])
                      (snd (pollButton openStatusPresses (begin_tracker erasedFlash))))) ShortPress = 0 \<and>
   noPressPending (begin_tracker erasedFlash) \<and>
   noPressPending (snd (pollButton openStatusPresses (begin_tracker erasedFlash))) \<and>
   noPressPending (update wholeNumberFpu False 1000 ggaFixA (begin_tracker erasedFlash))"
proof -
  have 1: "lastButtonState (begin_tracker erasedFlash)" by code_simp
  have 2: "(1000 :: millis) \<noteq> 0" by simp
  have 3: "1000 - lastButtonPress (begin_tracker erasedFlash) > 200" by code_simp
  have 4: "\<exists>t \<in> set [1500, 2200, 2600 :: millis]. t - 1000 > 1000" by simp
  have 5: "lastButtonState (snd (pollButton openStatusPresses (begin_tracker erasedFlash)))"
    by code_simp
  have 6: "noPressPending (snd (pollButton openStatusPresses (begin_tracker erasedFlash)))"
    by code_simp
  have 7: "\<not> 1200 - lastButtonPress (snd (pollButton openStatusPresses (begin_tracker erasedFlash))) > 200"
    by code_simp
  have 8: "noPressPending (begin_tracker erasedFlash)" by code_simp
  from long_press_exactly_once [OF 1 2 3 4,
      of 2700 "snd (pollButton openStatusPresses (begin_tracker erasedFlash))" 1200 "[2300]" 2400
         erasedFlash "begin_tracker erasedFlash" openStatusPresses
         "begin_tracker erasedFlash" wholeNumberFpu False 1000 ggaFixA] 5 6 7 8
  show ?thesis by blast
qed

text \<open>
  C8 as stated fails for a press that begins inside the debounce window. After a short
  press released at 1100 ms the button is pressed at 1200 ms, is still down at 2300 ms
  and is released at 2400 ms: the press start is not accepted, and in the 1200 ms of that
  press the handler performs no long-press action at all.
\<close>

theorem held_press_in_debounce_window_counterexample:
  "fst (pollButton heldAfterShortPress (begin_tracker erasedFlash))
     = [NoEvent, ShortPress, NoEvent, NoEvent, NoEvent] \<and>
   count_list (drop 2 (fst (pollButton heldAfterShortPress (begin_tracker erasedFlash)))) LongPress = 0"
  by code_simp

text \<open>
  C9. On the set-waypoint screen, while \<open>hasValidPosition\<close> and \<open>haveFix\<close> are not both
  true, a call of \<open>checkButton\<close> that takes the short-press branch leaves the three
  waypoints, the EEPROM image and its flash copy as they were, and the screen is still the
  set-waypoint screen with the same \<open>menuIndex\<close>.
\<close>

theorem set_waypoint_rejected_without_fix:
  assumes "currentScreen s = SCREEN_SET_WAYPOINT"
    and "\<not> (hasValidPosition s \<and> haveFix s)"
    and "fst (checkButton pin now s) = ShortPress"
  shows "waypoints (snd (checkButton pin now s)) = waypoints s \<and>
         eeprom_data (snd (checkButton pin now s)) = eeprom_data s \<and>
         eeprom_flash (snd (checkButton pin now s)) = eeprom_flash s \<and>
         currentScreen (snd (checkButton pin now s)) = SCREEN_SET_WAYPOINT \<and>
         menuIndex (snd (checkButton pin now s)) = menuIndex s"
  using assms
  by (auto simp: checkButton_def Let_def shortPressAction_def split: if_splits)

theorem set_waypoint_rejected_without_fix_witness:
  "waypoints (snd (checkButton True 5100 (snd (pollButton toSetWaypointPresses (begin_tracker erasedFlash)))))
     = waypoints (snd (pollButton toSetWaypointPresses (begin_tracker erasedFlash))) \<and>
   eeprom_data (snd (checkButton True 5100 (snd (pollButton toSetWaypointPresses (begin_tracker erasedFlash)))))
     = eeprom_data (snd (pollButton toSetWaypointPresses (begin_tracker erasedFlash))) \<and>
   eeprom_flash (snd (checkButton True 5100 (snd (pollButton toSetWaypointPresses (begin_tracker erasedFlash)))))
     = eeprom_flash (snd (pollButton toSetWaypointPresses (begin_tracker erasedFlash))) \<and>
   currentScreen (snd (checkButton True 5100 (snd (pollButton toSetWaypointPresses (begin_tracker erasedFlash)))))
     = SCREEN_SET_WAYPOINT \<and>
   menuIndex (snd (checkButton True 5100 (snd (pollButton toSetWaypointPresses (begin_tracker erasedFlash)))))
     = menuIndex (snd (pollButton toSetWaypointPresses (begin_tracker erasedFlash)))"
proof -
  have 1: "currentScreen (snd (pollButton toSetWaypointPresses (begin_tracker erasedFlash)))
             = SCREEN_SET_WAYPOINT" by code_simp
  have 2: "\<not> (hasValidPosition (snd (pollButton toSetWaypointPresses (begin_tracker erasedFlash))) \<and>
               haveFix (snd (pollButton toSetWaypointPresses (begin_tracker erasedFlash))))"
    by code_simp
  have 3: "fst (checkButton True 5100 (snd (pollButton toSetWaypointPresses (begin_tracker erasedFlash))))
             = ShortPress" by code_simp
  show ?thesis by (rule set_waypoint_rejected_without_fix [OF 1 2 3])
qed

text \<open>
  C3. The bound on \<open>menuIndex\<close> does not hold in every reachable state. From power-up,
  three long presses, a short press into the power menu and a short press on its Back
  item leave the tracker on the main menu, which has 4 items, with \<open>menuIndex = 4\<close>.
\<close>

theorem power_menu_back_leaves_index_4:
  "currentScreen (snd (pollButton powerMenuBackPresses (begin_tracker erasedFlash))) = SCREEN_MAIN_MENU \<and>
   menuIndex (snd (pollButton powerMenuBackPresses (begin_tracker erasedFlash))) = 4 \<and>
   menuItems SCREEN_MAIN_MENU = Some 4"
  by code_simp

lemma idle_update_on_status:
  assumes "lastButtonState s" "currentScreen s = SCREEN_STATUS"
  shows "currentScreen (update fp True now [] s) = SCREEN_STATUS \<and>
         menuIndex (update fp True now [] s) = menuIndex s"
  using assms by (simp add: update_def checkButton_def updateLCD_def Let_def)

text \<open>
  C2. There is no inactivity timeout: \<open>checkButton\<close> writes \<open>lastActivity\<close> and no step of
  \<open>update\<close> reads it. After a short press at 1100 ms has opened the status screen, an
  \<open>update\<close> at 40000 ms with the button up and no serial input, more than 30 s after the
  last activity, leaves the tracker on the status screen; and so does an \<open>update\<close> at any
  other time \<open>now\<close>.
\<close>

theorem no_inactivity_timeout:
  "currentScreen (snd (pollButton openStatusPresses (begin_tracker erasedFlash))) = SCREEN_STATUS \<and>
   lastActivity (snd (pollButton openStatusPresses (begin_tracker erasedFlash))) = 1100 \<and>
   currentScreen (update fp True 40000 [] (snd (pollButton openStatusPresses (begin_tracker erasedFlash))))
     = SCREEN_STATUS \<and>
   currentScreen (update fp True now [] (snd (pollButton openStatusPresses (begin_tracker erasedFlash))))
     = SCREEN_STATUS"
proof -
  have 1: "lastButtonState (snd (pollButton openStatusPresses (begin_tracker erasedFlash)))"
    by code_simp
  have 2: "currentScreen (snd (pollButton openStatusPresses (begin_tracker erasedFlash))) = SCREEN_STATUS"
    by code_simp
  have 3: "lastActivity (snd (pollButton openStatusPresses (begin_tracker erasedFlash))) = 1100"
    by code_simp
  from idle_update_on_status [OF 1 2] 2 3 show ?thesis by simp
qed

section \<open>Navigation and battery arithmetic: properties\<close>

lemma floor_bucket:
  assumes "0 \<le> b" "b < 360"
  shows "0 \<le> \<lfloor>(b + 22.5) / 45\<rfloor> \<and> \<lfloor>(b + 22.5) / 45\<rfloor> \<le> 8 \<and>
         45 * real_of_int \<lfloor>(b + 22.5) / 45\<rfloor> - 22.5 \<le> b \<and>
         b < 45 * real_of_int \<lfloor>(b + 22.5) / 45\<rfloor> + 22.5"
proof -
  let ?k = "\<lfloor>(b + 22.5) / 45\<rfloor>"
  have l: "real_of_int ?k \<le> (b + 22.5) / 45" by (rule of_int_floor_le)
  have u: "(b + 22.5) / 45 < real_of_int ?k + 1" by linarith
  have "0 \<le> (b + 22.5) / 45" using assms by simp
  then have k0: "0 \<le> ?k" by (simp add: le_floor_iff)
  have "(b + 22.5) / 45 < 9" using assms by simp
  then have "?k < 9" by (simp add: floor_less_iff)
  with k0 l u show ?thesis by (simp add: field_simps)
qed

text \<open>
  C6, as the code has it. With a fix and an established home, \<open>getCardinalDirection\<close>
  agrees, for every bearing in [0, 360), with the eight 45-degree buckets centred on the
  compass points: the result is one of the eight labels, it is N exactly on
  [337.5, 360) and [0, 22.5), and the four boundary samples come out as N, N, NE and N.
  Without a fix the answer is \<open>O\<close> whatever the bearing, and with a fix but no home it
  is \<open>N\<close> whatever the bearing.
\<close>

theorem cardinal_buckets_with_fix_and_home:
  assumes "haveFix s" "homeEstablished s" "0 \<le> b" "b < 360"
  shows "getCardinalDirection s b = cardinalBucket b \<and>
         getCardinalDirection s b \<in> set cardinalLabels \<and>
         (getCardinalDirection s b = ''N'' \<longleftrightarrow> b < 22.5 \<or> 337.5 \<le> b) \<and>
         getCardinalDirection s 0 = ''N'' \<and> getCardinalDirection s 22.4 = ''N'' \<and>
         getCardinalDirection s 22.5 = ''NE'' \<and> getCardinalDirection s 359.9 = ''N'' \<and>
         (\<not> haveFix s1 \<longrightarrow> getCardinalDirection s1 b1 = ''O'') \<and>
         (haveFix s2 \<and> \<not> homeEstablished s2 \<longrightarrow> getCardinalDirection s2 b2 = ''N'')"
proof -
  let ?k = "\<lfloor>(b + 22.5) / 45\<rfloor>"
  note f = floor_bucket [OF assms(3,4)]
  then consider "?k = 0" | "?k = 1" | "?k = 2" | "?k = 3" | "?k = 4" | "?k = 5" | "?k = 6"
    | "?k = 7" | "?k = 8" by linarith
  then have eq: "getCardinalDirection s b = cardinalBucket b"
  proof cases
    case 1 with f assms(1,2) show ?thesis
      by (simp add: getCardinalDirection_def cardinalBucket_def cardinalLabels_def)
  next
    case 2 with f assms(1,2) show ?thesis
      by (simp add: getCardinalDirection_def cardinalBucket_def cardinalLabels_def)
  next
    case 3 with f assms(1,2) show ?thesis
      by (simp add: getCardinalDirection_def cardinalBucket_def cardinalLabels_def)
  next
    case 4 with f assms(1,2) show ?thesis
      by (simp add: getCardinalDirection_def cardinalBucket_def cardinalLabels_def)
  next
    case 5 with f assms(1,2) show ?thesis
      by (simp add: getCardinalDirection_def cardinalBucket_def cardinalLabels_def)
  next
    case 6 with f assms(1,2) show ?thesis
      by (simp add: getCardinalDirection_def cardinalBucket_def cardinalLabels_def)
  next
    case 7 with f assms(1,2) show ?thesis
      by (simp add: getCardinalDirection_def cardinalBucket_def cardinalLabels_def)
  next
    case 8 with f assms(1,2) show ?thesis
      by (simp add: getCardinalDirection_def cardinalBucket_def cardinalLabels_def)
  next
    case 9 with f assms(1,2) show ?thesis
      by (simp add: getCardinalDirection_def cardinalBucket_def cardinalLabels_def)
  qed
  have mem: "getCardinalDirection s b \<in> set cardinalLabels"
    using assms(1,2) by (simp add: getCardinalDirection_def cardinalLabels_def)
  have n: "getCardinalDirection s b = ''N'' \<longleftrightarrow> b < 22.5 \<or> 337.5 \<le> b"
    using assms(1,2) by (simp add: getCardinalDirection_def)
  have v: "getCardinalDirection s 0 = ''N''" "getCardinalDirection s 22.4 = ''N''"
    "getCardinalDirection s 22.5 = ''NE''" "getCardinalDirection s 359.9 = ''N''"
    using assms(1,2) by (simp_all add: getCardinalDirection_def)
  have nofix: "\<not> haveFix s1 \<longrightarrow> getCardinalDirection s1 b1 = ''O''"
    by (simp add: getCardinalDirection_def)
  have nohome: "haveFix s2 \<and> \<not> homeEstablished s2 \<longrightarrow> getCardinalDirection s2 b2 = ''N''"
    by (simp add: getCardinalDirection_def)
  from eq mem n v nofix nohome show ?thesis by blast
qed

theorem cardinal_buckets_with_fix_and_home_witness:
  "getCardinalDirection (processNMEALine wholeNumberFpu ggaFixA (begin_tracker erasedFlash)) 100
     = cardinalBucket 100 \<and>
   getCardinalDirection (processNMEALine wholeNumberFpu ggaFixA (begin_tracker erasedFlash)) 100
     \<in> set cardinalLabels \<and>
   (getCardinalDirection (processNMEALine wholeNumberFpu ggaFixA (begin_tracker erasedFlash)) 100 = ''N''
      \<longleftrightarrow> (100 :: real) < 22.5 \<or> 337.5 \<le> (100 :: real)) \<and>
   getCardinalDirection (processNMEALine wholeNumberFpu ggaFixA (begin_tracker erasedFlash)) 0 = ''N'' \<and>
   getCardinalDirection (processNMEALine wholeNumberFpu ggaFixA (begin_tracker erasedFlash)) 22.4 = ''N'' \<and>
   getCardinalDirection (processNMEALine wholeNumberFpu ggaFixA (begin_tracker erasedFlash)) 22.5 = ''NE'' \<and>
   getCardinalDirection (processNMEALine wholeNumberFpu ggaFixA (begin_tracker erasedFlash)) 359.9 = ''N'' \<and>
   getCardinalDirection (begin_tracker erasedFlash) 90 = ''O'' \<and>
   getCardinalDirection (processNMEALine wholeNumberFpu ggaFixNoPosition (begin_tracker erasedFlash)) 90
     = ''N''"
proof -
  have 1: "haveFix (processNMEALine wholeNumberFpu ggaFixA (begin_tracker erasedFlash))"
    by code_simp
  have 2: "homeEstablished (processNMEALine wholeNumberFpu ggaFixA (begin_tracker erasedFlash))"
    by code_simp
  have 3: "(0 :: real) \<le> 100" by simp
  have 4: "(100 :: real) < 360" by simp
  have 5: "\<not> haveFix (begin_tracker erasedFlash)" by code_simp
  have 6: "haveFix (processNMEALine wholeNumberFpu ggaFixNoPosition (begin_tracker erasedFlash))"
    by code_simp
  have 7: "\<not> homeEstablished (processNMEALine wholeNumberFpu ggaFixNoPosition (begin_tracker erasedFlash))"
    by code_simp
  from cardinal_buckets_with_fix_and_home [OF 1 2 3 4, of "begin_tracker erasedFlash" 90
      "processNMEALine wholeNumberFpu ggaFixNoPosition (begin_tracker erasedFlash)" 90] 5 6 7
  show ?thesis by blast
qed

text \<open>
  C6 as stated fails without a fix: at power-up \<open>haveFix\<close> is false and the function
  answers \<open>O\<close> for bearing 0, which is none of the eight labels.
\<close>

theorem cardinal_without_fix_counterexample:
  "getCardinalDirection (HTITTracker_init erasedFlash) 0 = ''O'' \<and>
   getCardinalDirection (HTITTracker_init erasedFlash) 0 \<noteq> ''N'' \<and>
   getCardinalDirection (HTITTracker_init erasedFlash) 0 \<notin> set cardinalLabels"
  by (simp add: getCardinalDirection_def HTITTracker_init_def cardinalLabels_def)

subsection \<open>Rounding to single precision is monotone\<close>

lemma roundHalfEven_of_int: "roundHalfEven (of_int n) = n"
  by (simp add: roundHalfEven_def)

lemma roundHalfEven_bounds: "\<lfloor>y\<rfloor> \<le> roundHalfEven y \<and> roundHalfEven y \<le> \<lfloor>y\<rfloor> + 1"
  by (simp add: roundHalfEven_def Let_def)

lemma roundHalfEven_mono: "y \<le> z \<Longrightarrow> roundHalfEven y \<le> roundHalfEven z"
proof -
  assume yz: "y \<le> z"
  then have fl: "\<lfloor>y\<rfloor> \<le> \<lfloor>z\<rfloor>" by (rule floor_mono)
  show ?thesis
  proof (cases "\<lfloor>y\<rfloor> = \<lfloor>z\<rfloor>")
    case True
    with yz have "y - of_int \<lfloor>y\<rfloor> \<le> z - of_int \<lfloor>z\<rfloor>" by simp
    with True show ?thesis by (auto simp: roundHalfEven_def Let_def)
  next
    case False
    with fl have "\<lfloor>y\<rfloor> + 1 \<le> \<lfloor>z\<rfloor>" by simp
    with roundHalfEven_bounds [of y] roundHalfEven_bounds [of z] show ?thesis by linarith
  qed
qed

lemma roundHalfEven_ge: "of_int n \<le> y \<Longrightarrow> n \<le> roundHalfEven y"
  using roundHalfEven_mono [of "of_int n" y] by (simp add: roundHalfEven_of_int)

lemma roundHalfEven_le: "y \<le> of_int n \<Longrightarrow> roundHalfEven y \<le> n"
  using roundHalfEven_mono [of y "of_int n"] by (simp add: roundHalfEven_of_int)

lemma bitlen_mono: "a \<le> b \<Longrightarrow> bitlen a \<le> bitlen b"
  by (simp add: bitlen_def floorlog_mono)

lemma spacingExp_mono: "X \<le> Y \<Longrightarrow> spacingExp X \<le> spacingExp Y"
proof -
  assume "X \<le> Y"
  then have "\<lfloor>X\<rfloor> \<le> \<lfloor>Y\<rfloor>" by (rule floor_mono)
  then have "bitlen \<lfloor>X\<rfloor> \<le> bitlen \<lfloor>Y\<rfloor>" by (rule bitlen_mono)
  then show ?thesis by (simp add: spacingExp_def)
qed

lemma scaled_upper:
  assumes "0 \<le> X"
  shows "X < 2 ^ (24 + spacingExp X)"
proof (cases "\<lfloor>X\<rfloor> > 0")
  case True
  from bitlen_bounds [OF True] have "\<lfloor>X\<rfloor> < 2 ^ nat (bitlen \<lfloor>X\<rfloor>)" by simp
  moreover have "nat (bitlen \<lfloor>X\<rfloor>) \<le> 24 + spacingExp X" by (simp add: spacingExp_def)
  then have "(2::int) ^ nat (bitlen \<lfloor>X\<rfloor>) \<le> 2 ^ (24 + spacingExp X)"
    by (rule power_increasing) simp
  ultimately have "\<lfloor>X\<rfloor> < 2 ^ (24 + spacingExp X)" by linarith
  then have "\<lfloor>X\<rfloor> + 1 \<le> 2 ^ (24 + spacingExp X)" by simp
  then have "real_of_int (\<lfloor>X\<rfloor> + 1) \<le> real_of_int (2 ^ (24 + spacingExp X))"
    by (simp only: of_int_le_iff)
  then have a: "real_of_int \<lfloor>X\<rfloor> + 1 \<le> 2 ^ (24 + spacingExp X)" by simp
  have b: "X < real_of_int \<lfloor>X\<rfloor> + 1" by linarith
  from a b show ?thesis by linarith
next
  case False
  then have "\<lfloor>X\<rfloor> \<le> 0" by simp
  then have "X < 1" by linarith
  moreover have "(1::real) \<le> 2 ^ (24 + spacingExp X)" by simp
  ultimately show ?thesis by linarith
qed

lemma scaled_lower:
  assumes "0 < spacingExp Y"
  shows "2 ^ (23 + spacingExp Y) \<le> Y"
proof -
  from assms have b: "bitlen \<lfloor>Y\<rfloor> - 24 > 0" by (simp add: spacingExp_def)
  then have pos: "\<lfloor>Y\<rfloor> > 0" using bitlen_eq_zero_iff [of "\<lfloor>Y\<rfloor>"] by (cases "\<lfloor>Y\<rfloor> > 0") auto
  from b have e: "nat (bitlen \<lfloor>Y\<rfloor> - 1) = 23 + spacingExp Y" by (simp add: spacingExp_def)
  from bitlen_bounds [OF pos] e have "2 ^ (23 + spacingExp Y) \<le> \<lfloor>Y\<rfloor>" by simp
  then have "real_of_int (2 ^ (23 + spacingExp Y)) \<le> Y" by (simp only: le_floor_iff)
  then show ?thesis by simp
qed

lemma scaledRound_le_top:
  assumes "0 \<le> X"
  shows "scaledRound X \<le> 2 ^ (24 + spacingExp X)"
proof -
  let ?j = "spacingExp X"
  from scaled_upper [OF assms] have "X / 2 ^ ?j \<le> 2 ^ 24"
    by (simp add: power_add field_simps)
  then have "X / 2 ^ ?j \<le> real_of_int (2 ^ 24)" by simp
  then have "roundHalfEven (X / 2 ^ ?j) \<le> 2 ^ 24" by (rule roundHalfEven_le)
  then have "real_of_int (roundHalfEven (X / 2 ^ ?j)) \<le> real_of_int (2 ^ 24)"
    by (simp only: of_int_le_iff)
  then have "real_of_int (roundHalfEven (X / 2 ^ ?j)) * 2 ^ ?j \<le> real_of_int (2 ^ 24) * 2 ^ ?j"
    by (rule mult_right_mono) simp
  then show ?thesis by (simp add: scaledRound_def power_add)
qed

lemma scaledRound_ge_bottom:
  assumes "0 < spacingExp Y"
  shows "2 ^ (23 + spacingExp Y) \<le> scaledRound Y"
proof -
  let ?j = "spacingExp Y"
  from scaled_lower [OF assms] have "2 ^ 23 \<le> Y / 2 ^ ?j"
    by (simp add: power_add field_simps)
  then have "real_of_int (2 ^ 23) \<le> Y / 2 ^ ?j" by simp
  then have "2 ^ 23 \<le> roundHalfEven (Y / 2 ^ ?j)" by (rule roundHalfEven_ge)
  then have "real_of_int (2 ^ 23) \<le> real_of_int (roundHalfEven (Y / 2 ^ ?j))"
    by (simp only: of_int_le_iff)
  then have "real_of_int (2 ^ 23) * 2 ^ ?j \<le> real_of_int (roundHalfEven (Y / 2 ^ ?j)) * 2 ^ ?j"
    by (rule mult_right_mono) simp
  then show ?thesis by (simp add: scaledRound_def power_add)
qed

lemma scaledRound_mono:
  assumes "0 \<le> X" "X \<le> Y"
  shows "scaledRound X \<le> scaledRound Y"
proof (cases "spacingExp X = spacingExp Y")
  case True
  let ?j = "spacingExp Y"
  from assms(2) have "X / 2 ^ ?j \<le> Y / 2 ^ ?j" by (simp add: divide_right_mono)
  then have "roundHalfEven (X / 2 ^ ?j) \<le> roundHalfEven (Y / 2 ^ ?j)" by (rule roundHalfEven_mono)
  then have "real_of_int (roundHalfEven (X / 2 ^ ?j)) \<le> real_of_int (roundHalfEven (Y / 2 ^ ?j))"
    by (simp only: of_int_le_iff)
  then have "real_of_int (roundHalfEven (X / 2 ^ ?j)) * 2 ^ ?j
               \<le> real_of_int (roundHalfEven (Y / 2 ^ ?j)) * 2 ^ ?j"
    by (rule mult_right_mono) simp
  with True show ?thesis by (simp add: scaledRound_def)
next
  case False
  with spacingExp_mono [OF assms(2)] have lt: "spacingExp X < spacingExp Y" by simp
  then have pos: "0 < spacingExp Y" by simp
  from lt have "24 + spacingExp X \<le> 23 + spacingExp Y" by simp
  then have "(2::real) ^ (24 + spacingExp X) \<le> 2 ^ (23 + spacingExp Y)"
    by (rule power_increasing) simp
  with scaledRound_le_top [OF assms(1)] scaledRound_ge_bottom [OF pos] show ?thesis by linarith
qed

lemma float32_nonneg_eq:
  "0 \<le> x \<Longrightarrow> float32 x = scaledRound (x * 2 ^ 149) / 2 ^ 149"
  by (cases "x = 0") (simp_all add: float32_def scaledRound_def spacingExp_def Let_def roundHalfEven_def)

lemma float32_mono:
  assumes "0 \<le> x" "x \<le> y"
  shows "float32 x \<le> float32 y"
proof -
  from assms have "0 \<le> x * 2 ^ 149" "x * 2 ^ 149 \<le> y * 2 ^ 149" by simp_all
  then have "scaledRound (x * 2 ^ 149) \<le> scaledRound (y * 2 ^ 149)" by (rule scaledRound_mono)
  then have "scaledRound (x * 2 ^ 149) / 2 ^ 149 \<le> scaledRound (y * 2 ^ 149) / 2 ^ 149"
    by (simp add: divide_right_mono)
  with assms show ?thesis by (simp add: float32_nonneg_eq)
qed

lemma float32_zero: "float32 0 = 0"
  by (simp add: float32_def)

lemma float32_nonneg: "0 \<le> x \<Longrightarrow> 0 \<le> float32 x"
  using float32_mono [of 0 x] by (simp add: float32_zero)

subsection \<open>The pieces of the battery curve\<close>

lemma float32_thresholds:
  "float32 3.30 = 13841203 / 4194304" "float32 3.50 = 7 / 2" "float32 3.60 = 7549747 / 2097152"
  "float32 3.70 = 15518925 / 4194304" "float32 3.80 = 15938355 / 4194304"
  "float32 3.90 = 8178893 / 2097152" "float32 4.00 = 4" "float32 4.10 = 8598323 / 2097152"
  "float32 4.20 = 4404019 / 1048576"
  by code_simp+

lemma float32_whole:
  "float32 1 = 1" "float32 5 = 5" "float32 10 = 10" "float32 15 = 15" "float32 20 = 20"
  "float32 30 = 30" "float32 50 = 50" "float32 70 = 70" "float32 85 = 85" "float32 95 = 95"
  "float32 100 = 100"
  by code_simp+

lemma float32_literals:
  "float32 5.0 = 5" "float32 10.0 = 10" "float32 15.0 = 15" "float32 20.0 = 20"
  "float32 30.0 = 30" "float32 50.0 = 50" "float32 70.0 = 70" "float32 85.0 = 85"
  "float32 95.0 = 95"
  by code_simp+

lemma spans_positive:
  "0 < fsub (7 / 2) (13841203 / 4194304)"
  "0 < fsub (7549747 / 2097152) (7 / 2)"
  "0 < fsub (15518925 / 4194304) (7549747 / 2097152)"
  "0 < fsub (15938355 / 4194304) (15518925 / 4194304)"
  "0 < fsub (8178893 / 2097152) (15938355 / 4194304)"
  "0 < fsub 4 (8178893 / 2097152)"
  "0 < fsub (8598323 / 2097152) 4"
  "0 < fsub (4404019 / 1048576) (8598323 / 2097152)"
  by code_simp+

lemma curveRise_nonneg:
  assumes "lo \<le> v" "0 < fsub hi lo" "0 \<le> gain"
  shows "0 \<le> curveRise lo hi gain v"
proof -
  have "0 \<le> fsub v lo" using assms(1) by (simp add: fsub_def float32_nonneg)
  then have "0 \<le> fsub v lo / fsub hi lo" using assms(2) by simp
  then have "0 \<le> fdiv (fsub v lo) (fsub hi lo)" by (simp add: fdiv_def float32_nonneg)
  then have "0 \<le> fdiv (fsub v lo) (fsub hi lo) * gain" using assms(3) by simp
  then show ?thesis by (simp add: curveRise_def fmul_def float32_nonneg)
qed

lemma curveRise_mono:
  assumes "lo \<le> v" "v \<le> w" "0 < fsub hi lo" "0 \<le> gain"
  shows "curveRise lo hi gain v \<le> curveRise lo hi gain w"
proof -
  let ?d = "fsub hi lo"
  have a0: "0 \<le> fsub v lo" using assms(1) by (simp add: fsub_def float32_nonneg)
  have a: "fsub v lo \<le> fsub w lo" using assms(1,2) by (simp add: fsub_def float32_mono)
  from a0 assms(3) have b0: "0 \<le> fsub v lo / ?d" by simp
  from a assms(3) have "fsub v lo / ?d \<le> fsub w lo / ?d" by (simp add: divide_right_mono)
  with b0 have c: "fdiv (fsub v lo) ?d \<le> fdiv (fsub w lo) ?d" by (simp add: fdiv_def float32_mono)
  from b0 have c0: "0 \<le> fdiv (fsub v lo) ?d" by (simp add: fdiv_def float32_nonneg)
  from c0 assms(4) have e0: "0 \<le> fdiv (fsub v lo) ?d * gain" by simp
  from c assms(4) have "fdiv (fsub v lo) ?d * gain \<le> fdiv (fsub w lo) ?d * gain"
    by (rule mult_right_mono)
  with e0 show ?thesis by (simp add: curveRise_def fmul_def float32_mono)
qed

lemma curveRise_top:
  assumes "lo \<le> v" "v \<le> hi" "0 < fsub hi lo" "0 \<le> gain"
  shows "curveRise lo hi gain v \<le> float32 gain"
proof -
  let ?d = "fsub hi lo"
  have a0: "0 \<le> fsub v lo" using assms(1) by (simp add: fsub_def float32_nonneg)
  have a: "fsub v lo \<le> ?d" using assms(1,2) by (simp add: fsub_def float32_mono)
  from a0 assms(3) have b0: "0 \<le> fsub v lo / ?d" by simp
  from a assms(3) have "fsub v lo / ?d \<le> 1" by simp
  with b0 have "fdiv (fsub v lo) ?d \<le> float32 1" by (simp add: fdiv_def float32_mono)
  then have c: "fdiv (fsub v lo) ?d \<le> 1" by (simp add: float32_whole)
  from b0 have c0: "0 \<le> fdiv (fsub v lo) ?d" by (simp add: fdiv_def float32_nonneg)
  from c0 assms(4) have e0: "0 \<le> fdiv (fsub v lo) ?d * gain" by simp
  from c assms(4) have "fdiv (fsub v lo) ?d * gain \<le> 1 * gain" by (rule mult_right_mono)
  then have "fdiv (fsub v lo) ?d * gain \<le> gain" by simp
  with e0 show ?thesis by (simp add: curveRise_def fmul_def float32_mono)
qed

lemma curvePiece_mono:
  assumes "lo \<le> v" "v \<le> w" "0 < fsub hi lo" "0 \<le> gain" "0 \<le> base"
  shows "curvePiece base lo hi gain v \<le> curvePiece base lo hi gain w"
proof -
  from curveRise_nonneg [OF assms(1,3,4)] assms(5) have "0 \<le> base + curveRise lo hi gain v" by simp
  moreover from curveRise_mono [OF assms(1,2,3,4)]
  have "base + curveRise lo hi gain v \<le> base + curveRise lo hi gain w" by simp
  ultimately show ?thesis by (simp add: curvePiece_def fadd_def float32_mono)
qed

lemma curvePiece_bottom:
  assumes "lo \<le> v" "0 < fsub hi lo" "0 \<le> gain" "0 \<le> base"
  shows "float32 base \<le> curvePiece base lo hi gain v"
proof -
  from curveRise_nonneg [OF assms(1,2,3)] have "base \<le> base + curveRise lo hi gain v" by simp
  with assms(4) show ?thesis by (simp add: curvePiece_def fadd_def float32_mono)
qed

lemma curvePiece_top:
  assumes "lo \<le> v" "v \<le> hi" "0 < fsub hi lo" "0 \<le> gain" "0 \<le> base"
  shows "curvePiece base lo hi gain v \<le> float32 (base + float32 gain)"
proof -
  from curveRise_nonneg [OF assms(1,3,4)] assms(5) have "0 \<le> base + curveRise lo hi gain v" by simp
  moreover from curveRise_top [OF assms(1,2,3,4)]
  have "base + curveRise lo hi gain v \<le> base + float32 gain" by simp
  ultimately show ?thesis by (simp add: curvePiece_def fadd_def float32_mono)
qed

lemma dischargeCurve_thresholds:
  "dischargeCurve vb =
     (if vb \<ge> 4404019 / 1048576 then 100
      else if vb \<ge> 8598323 / 2097152 then curvePiece 95 (8598323 / 2097152) (4404019 / 1048576) 5 vb
      else if vb \<ge> 4 then curvePiece 85 4 (8598323 / 2097152) 10 vb
      else if vb \<ge> 8178893 / 2097152 then curvePiece 70 (8178893 / 2097152) 4 15 vb
      else if vb \<ge> 15938355 / 4194304 then curvePiece 50 (15938355 / 4194304) (8178893 / 2097152) 20 vb
      else if vb \<ge> 15518925 / 4194304 then curvePiece 30 (15518925 / 4194304) (15938355 / 4194304) 20 vb
      else if vb \<ge> 7549747 / 2097152 then curvePiece 15 (7549747 / 2097152) (15518925 / 4194304) 15 vb
      else if vb \<ge> 7 / 2 then curvePiece 5 (7 / 2) (7549747 / 2097152) 10 vb
      else if vb \<ge> 13841203 / 4194304 then curveRise (13841203 / 4194304) (7 / 2) 5 vb
      else 0)"
  by (simp only: dischargeCurve_def float32_thresholds)

lemma dischargeCurve_piece0:
  "13841203 / 4194304 \<le> v \<Longrightarrow> v < 7 / 2 \<Longrightarrow> dischargeCurve v = curveRise (13841203 / 4194304) (7 / 2) 5 v"
  by (simp add: dischargeCurve_thresholds)

lemma piece0_range:
  "13841203 / 4194304 \<le> v \<Longrightarrow> v \<le> 7 / 2 \<Longrightarrow> 0 \<le> curveRise (13841203 / 4194304) (7 / 2) 5 v \<and> curveRise (13841203 / 4194304) (7 / 2) 5 v \<le> 5"
  using curveRise_nonneg [of "13841203 / 4194304" v "7 / 2" 5] curveRise_top [of "13841203 / 4194304" v "7 / 2" 5] spans_positive(1)
  by (simp add: float32_whole)

lemma piece0_mono:
  "13841203 / 4194304 \<le> v \<Longrightarrow> v \<le> w \<Longrightarrow> curveRise (13841203 / 4194304) (7 / 2) 5 v \<le> curveRise (13841203 / 4194304) (7 / 2) 5 w"
  using curveRise_mono [of "13841203 / 4194304" v w "7 / 2" 5] spans_positive(1) by simp

lemma dischargeCurve_piece1:
  "7 / 2 \<le> v \<Longrightarrow> v < 7549747 / 2097152 \<Longrightarrow> dischargeCurve v = curvePiece 5 (7 / 2) (7549747 / 2097152) 10 v"
  by (simp add: dischargeCurve_thresholds)

lemma piece1_range:
  "7 / 2 \<le> v \<Longrightarrow> v \<le> 7549747 / 2097152 \<Longrightarrow> 5 \<le> curvePiece 5 (7 / 2) (7549747 / 2097152) 10 v \<and> curvePiece 5 (7 / 2) (7549747 / 2097152) 10 v \<le> 15"
  using curvePiece_bottom [of "7 / 2" v "7549747 / 2097152" 10 5] curvePiece_top [of "7 / 2" v "7549747 / 2097152" 10 5] spans_positive(2)
  by (simp add: float32_whole)

lemma piece1_mono:
  "7 / 2 \<le> v \<Longrightarrow> v \<le> w \<Longrightarrow> curvePiece 5 (7 / 2) (7549747 / 2097152) 10 v \<le> curvePiece 5 (7 / 2) (7549747 / 2097152) 10 w"
  using curvePiece_mono [of "7 / 2" v w "7549747 / 2097152" 10 5] spans_positive(2) by simp

lemma dischargeCurve_piece2:
  "7549747 / 2097152 \<le> v \<Longrightarrow> v < 15518925 / 4194304 \<Longrightarrow> dischargeCurve v = curvePiece 15 (7549747 / 2097152) (15518925 / 4194304) 15 v"
  by (simp add: dischargeCurve_thresholds)

lemma piece2_range:
  "7549747 / 2097152 \<le> v \<Longrightarrow> v \<le> 15518925 / 4194304 \<Longrightarrow> 15 \<le> curvePiece 15 (7549747 / 2097152) (15518925 / 4194304) 15 v \<and> curvePiece 15 (7549747 / 2097152) (15518925 / 4194304) 15 v \<le> 30"
  using curvePiece_bottom [of "7549747 / 2097152" v "15518925 / 4194304" 15 15] curvePiece_top [of "7549747 / 2097152" v "15518925 / 4194304" 15 15] spans_positive(3)
  by (simp add: float32_whole)

lemma piece2_mono:
  "7549747 / 2097152 \<le> v \<Longrightarrow> v \<le> w \<Longrightarrow> curvePiece 15 (7549747 / 2097152) (15518925 / 4194304) 15 v \<le> curvePiece 15 (7549747 / 2097152) (15518925 / 4194304) 15 w"
  using curvePiece_mono [of "7549747 / 2097152" v w "15518925 / 4194304" 15 15] spans_positive(3) by simp

lemma dischargeCurve_piece3:
  "15518925 / 4194304 \<le> v \<Longrightarrow> v < 15938355 / 4194304 \<Longrightarrow> dischargeCurve v = curvePiece 30 (15518925 / 4194304) (15938355 / 4194304) 20 v"
  by (simp add: dischargeCurve_thresholds)

lemma piece3_range:
  "15518925 / 4194304 \<le> v \<Longrightarrow> v \<le> 15938355 / 4194304 \<Longrightarrow> 30 \<le> curvePiece 30 (15518925 / 4194304) (15938355 / 4194304) 20 v \<and> curvePiece 30 (15518925 / 4194304) (15938355 / 4194304) 20 v \<le> 50"
  using curvePiece_bottom [of "15518925 / 4194304" v "15938355 / 4194304" 20 30] curvePiece_top [of "15518925 / 4194304" v "15938355 / 4194304" 20 30] spans_positive(4)
  by (simp add: float32_whole)

lemma piece3_mono:
  "15518925 / 4194304 \<le> v \<Longrightarrow> v \<le> w \<Longrightarrow> curvePiece 30 (15518925 / 4194304) (15938355 / 4194304) 20 v \<le> curvePiece 30 (15518925 / 4194304) (15938355 / 4194304) 20 w"
  using curvePiece_mono [of "15518925 / 4194304" v w "15938355 / 4194304" 20 30] spans_positive(4) by simp

lemma dischargeCurve_piece4:
  "15938355 / 4194304 \<le> v \<Longrightarrow> v < 8178893 / 2097152 \<Longrightarrow> dischargeCurve v = curvePiece 50 (15938355 / 4194304) (8178893 / 2097152) 20 v"
  by (simp add: dischargeCurve_thresholds)

lemma piece4_range:
  "15938355 / 4194304 \<le> v \<Longrightarrow> v \<le> 8178893 / 2097152 \<Longrightarrow> 50 \<le> curvePiece 50 (15938355 / 4194304) (8178893 / 2097152) 20 v \<and> curvePiece 50 (15938355 / 4194304) (8178893 / 2097152) 20 v \<le> 70"
  using curvePiece_bottom [of "15938355 / 4194304" v "8178893 / 2097152" 20 50] curvePiece_top [of "15938355 / 4194304" v "8178893 / 2097152" 20 50] spans_positive(5)
  by (simp add: float32_whole)

lemma piece4_mono:
  "15938355 / 4194304 \<le> v \<Longrightarrow> v \<le> w \<Longrightarrow> curvePiece 50 (15938355 / 4194304) (8178893 / 2097152) 20 v \<le> curvePiece 50 (15938355 / 4194304) (8178893 / 2097152) 20 w"
  using curvePiece_mono [of "15938355 / 4194304" v w "8178893 / 2097152" 20 50] spans_positive(5) by simp

lemma dischargeCurve_piece5:
  "8178893 / 2097152 \<le> v \<Longrightarrow> v < 4 \<Longrightarrow> dischargeCurve v = curvePiece 70 (8178893 / 2097152) 4 15 v"
  by (simp add: dischargeCurve_thresholds)

lemma piece5_range:
  "8178893 / 2097152 \<le> v \<Longrightarrow> v \<le> 4 \<Longrightarrow> 70 \<le> curvePiece 70 (8178893 / 2097152) 4 15 v \<and> curvePiece 70 (8178893 / 2097152) 4 15 v \<le> 85"
  using curvePiece_bottom [of "8178893 / 2097152" v "4" 15 70] curvePiece_top [of "8178893 / 2097152" v "4" 15 70] spans_positive(6)
  by (simp add: float32_whole)

lemma piece5_mono:
  "8178893 / 2097152 \<le> v \<Longrightarrow> v \<le> w \<Longrightarrow> curvePiece 70 (8178893 / 2097152) 4 15 v \<le> curvePiece 70 (8178893 / 2097152) 4 15 w"
  using curvePiece_mono [of "8178893 / 2097152" v w "4" 15 70] spans_positive(6) by simp

lemma dischargeCurve_piece6:
  "4 \<le> v \<Longrightarrow> v < 8598323 / 2097152 \<Longrightarrow> dischargeCurve v = curvePiece 85 4 (8598323 / 2097152) 10 v"
  by (simp add: dischargeCurve_thresholds)

lemma piece6_range:
  "4 \<le> v \<Longrightarrow> v \<le> 8598323 / 2097152 \<Longrightarrow> 85 \<le> curvePiece 85 4 (8598323 / 2097152) 10 v \<and> curvePiece 85 4 (8598323 / 2097152) 10 v \<le> 95"
  using curvePiece_bottom [of "4" v "8598323 / 2097152" 10 85] curvePiece_top [of "4" v "8598323 / 2097152" 10 85] spans_positive(7)
  by (simp add: float32_whole)

lemma piece6_mono:
  "4 \<le> v \<Longrightarrow> v \<le> w \<Longrightarrow> curvePiece 85 4 (8598323 / 2097152) 10 v \<le> curvePiece 85 4 (8598323 / 2097152) 10 w"
  using curvePiece_mono [of "4" v w "8598323 / 2097152" 10 85] spans_positive(7) by simp

lemma dischargeCurve_piece7:
  "8598323 / 2097152 \<le> v \<Longrightarrow> v < 4404019 / 1048576 \<Longrightarrow> dischargeCurve v = curvePiece 95 (8598323 / 2097152) (4404019 / 1048576) 5 v"
  by (simp add: dischargeCurve_thresholds)

lemma piece7_range:
  "8598323 / 2097152 \<le> v \<Longrightarrow> v \<le> 4404019 / 1048576 \<Longrightarrow> 95 \<le> curvePiece 95 (8598323 / 2097152) (4404019 / 1048576) 5 v \<and> curvePiece 95 (8598323 / 2097152) (4404019 / 1048576) 5 v \<le> 100"
  using curvePiece_bottom [of "8598323 / 2097152" v "4404019 / 1048576" 5 95] curvePiece_top [of "8598323 / 2097152" v "4404019 / 1048576" 5 95] spans_positive(8)
  by (simp add: float32_whole)

lemma piece7_mono:
  "8598323 / 2097152 \<le> v \<Longrightarrow> v \<le> w \<Longrightarrow> curvePiece 95 (8598323 / 2097152) (4404019 / 1048576) 5 v \<le> curvePiece 95 (8598323 / 2097152) (4404019 / 1048576) 5 w"
  using curvePiece_mono [of "8598323 / 2097152" v w "4404019 / 1048576" 5 95] spans_positive(8) by simp

lemma dischargeCurve_below: "v < 13841203 / 4194304 \<Longrightarrow> dischargeCurve v = 0"
  by (simp add: dischargeCurve_thresholds)

lemma dischargeCurve_above: "4404019 / 1048576 \<le> v \<Longrightarrow> dischargeCurve v = 100"
  by (simp add: dischargeCurve_thresholds)

lemma dischargeCurve_lower8: "4404019 / 1048576 \<le> v \<Longrightarrow> 100 \<le> dischargeCurve v"
  by (simp add: dischargeCurve_above)

lemma dischargeCurve_lower7: "8598323 / 2097152 \<le> v \<Longrightarrow> 95 \<le> dischargeCurve v"
proof (cases "v < 4404019 / 1048576")
  case True
  assume "8598323 / 2097152 \<le> v"
  with True piece7_range [of v] show ?thesis by (simp add: dischargeCurve_piece7)
next
  case False
  with dischargeCurve_lower8 [of v] show ?thesis by simp
qed

lemma dischargeCurve_lower6: "4 \<le> v \<Longrightarrow> 85 \<le> dischargeCurve v"
proof (cases "v < 8598323 / 2097152")
  case True
  assume "4 \<le> v"
  with True piece6_range [of v] show ?thesis by (simp add: dischargeCurve_piece6)
next
  case False
  with dischargeCurve_lower7 [of v] show ?thesis by simp
qed

lemma dischargeCurve_lower5: "8178893 / 2097152 \<le> v \<Longrightarrow> 70 \<le> dischargeCurve v"
proof (cases "v < 4")
  case True
  assume "8178893 / 2097152 \<le> v"
  with True piece5_range [of v] show ?thesis by (simp add: dischargeCurve_piece5)
next
  case False
  with dischargeCurve_lower6 [of v] show ?thesis by simp
qed

lemma dischargeCurve_lower4: "15938355 / 4194304 \<le> v \<Longrightarrow> 50 \<le> dischargeCurve v"
proof (cases "v < 8178893 / 2097152")
  case True
  assume "15938355 / 4194304 \<le> v"
  with True piece4_range [of v] show ?thesis by (simp add: dischargeCurve_piece4)
next
  case False
  with dischargeCurve_lower5 [of v] show ?thesis by simp
qed

lemma dischargeCurve_lower3: "15518925 / 4194304 \<le> v \<Longrightarrow> 30 \<le> dischargeCurve v"
proof (cases "v < 15938355 / 4194304")
  case True
  assume "15518925 / 4194304 \<le> v"
  with True piece3_range [of v] show ?thesis by (simp add: dischargeCurve_piece3)
next
  case False
  with dischargeCurve_lower4 [of v] show ?thesis by simp
qed

lemma dischargeCurve_lower2: "7549747 / 2097152 \<le> v \<Longrightarrow> 15 \<le> dischargeCurve v"
proof (cases "v < 15518925 / 4194304")
  case True
  assume "7549747 / 2097152 \<le> v"
  with True piece2_range [of v] show ?thesis by (simp add: dischargeCurve_piece2)
next
  case False
  with dischargeCurve_lower3 [of v] show ?thesis by simp
qed

lemma dischargeCurve_lower1: "7 / 2 \<le> v \<Longrightarrow> 5 \<le> dischargeCurve v"
proof (cases "v < 7549747 / 2097152")
  case True
  assume "7 / 2 \<le> v"
  with True piece1_range [of v] show ?thesis by (simp add: dischargeCurve_piece1)
next
  case False
  with dischargeCurve_lower2 [of v] show ?thesis by simp
qed

lemma dischargeCurve_lower0: "13841203 / 4194304 \<le> v \<Longrightarrow> 0 \<le> dischargeCurve v"
proof (cases "v < 7 / 2")
  case True
  assume "13841203 / 4194304 \<le> v"
  with True piece0_range [of v] show ?thesis by (simp add: dischargeCurve_piece0)
next
  case False
  with dischargeCurve_lower1 [of v] show ?thesis by simp
qed

lemma dischargeCurve_upper0: "v < 13841203 / 4194304 \<Longrightarrow> dischargeCurve v \<le> 0"
  by (simp add: dischargeCurve_below)

lemma dischargeCurve_upper1: "v < 7 / 2 \<Longrightarrow> dischargeCurve v \<le> 5"
proof (cases "13841203 / 4194304 \<le> v")
  case True
  assume "v < 7 / 2"
  with True piece0_range [of v] show ?thesis by (simp add: dischargeCurve_piece0)
next
  case False
  with dischargeCurve_upper0 [of v] show ?thesis by simp
qed

lemma dischargeCurve_upper2: "v < 7549747 / 2097152 \<Longrightarrow> dischargeCurve v \<le> 15"
proof (cases "7 / 2 \<le> v")
  case True
  assume "v < 7549747 / 2097152"
  with True piece1_range [of v] show ?thesis by (simp add: dischargeCurve_piece1)
next
  case False
  with dischargeCurve_upper1 [of v] show ?thesis by simp
qed

lemma dischargeCurve_upper3: "v < 15518925 / 4194304 \<Longrightarrow> dischargeCurve v \<le> 30"
proof (cases "7549747 / 2097152 \<le> v")
  case True
  assume "v < 15518925 / 4194304"
  with True piece2_range [of v] show ?thesis by (simp add: dischargeCurve_piece2)
next
  case False
  with dischargeCurve_upper2 [of v] show ?thesis by simp
qed

lemma dischargeCurve_upper4: "v < 15938355 / 4194304 \<Longrightarrow> dischargeCurve v \<le> 50"
proof (cases "15518925 / 4194304 \<le> v")
  case True
  assume "v < 15938355 / 4194304"
  with True piece3_range [of v] show ?thesis by (simp add: dischargeCurve_piece3)
next
  case False
  with dischargeCurve_upper3 [of v] show ?thesis by simp
qed

lemma dischargeCurve_upper5: "v < 8178893 / 2097152 \<Longrightarrow> dischargeCurve v \<le> 70"
proof (cases "15938355 / 4194304 \<le> v")
  case True
  assume "v < 8178893 / 2097152"
  with True piece4_range [of v] show ?thesis by (simp add: dischargeCurve_piece4)
next
  case False
  with dischargeCurve_upper4 [of v] show ?thesis by simp
qed

lemma dischargeCurve_upper6: "v < 4 \<Longrightarrow> dischargeCurve v \<le> 85"
proof (cases "8178893 / 2097152 \<le> v")
  case True
  assume "v < 4"
  with True piece5_range [of v] show ?thesis by (simp add: dischargeCurve_piece5)
next
  case False
  with dischargeCurve_upper5 [of v] show ?thesis by simp
qed

lemma dischargeCurve_upper7: "v < 8598323 / 2097152 \<Longrightarrow> dischargeCurve v \<le> 95"
proof (cases "4 \<le> v")
  case True
  assume "v < 8598323 / 2097152"
  with True piece6_range [of v] show ?thesis by (simp add: dischargeCurve_piece6)
next
  case False
  with dischargeCurve_upper6 [of v] show ?thesis by simp
qed

lemma dischargeCurve_upper8: "v < 4404019 / 1048576 \<Longrightarrow> dischargeCurve v \<le> 100"
proof (cases "8598323 / 2097152 \<le> v")
  case True
  assume "v < 4404019 / 1048576"
  with True piece7_range [of v] show ?thesis by (simp add: dischargeCurve_piece7)
next
  case False
  with dischargeCurve_upper7 [of v] show ?thesis by simp
qed

lemma dischargeCurve_mono:
  assumes "v \<le> w"
  shows "dischargeCurve v \<le> dischargeCurve w"
proof -
  consider (below) "v < 13841203 / 4194304"
    | (p0) "13841203 / 4194304 \<le> v" "v < 7 / 2"
    | (p1) "7 / 2 \<le> v" "v < 7549747 / 2097152"
    | (p2) "7549747 / 2097152 \<le> v" "v < 15518925 / 4194304"
    | (p3) "15518925 / 4194304 \<le> v" "v < 15938355 / 4194304"
    | (p4) "15938355 / 4194304 \<le> v" "v < 8178893 / 2097152"
    | (p5) "8178893 / 2097152 \<le> v" "v < 4"
    | (p6) "4 \<le> v" "v < 8598323 / 2097152"
    | (p7) "8598323 / 2097152 \<le> v" "v < 4404019 / 1048576"
    | (above) "4404019 / 1048576 \<le> v" by linarith
  then show ?thesis
  proof cases
    case below
    then have "dischargeCurve v = 0" by (rule dischargeCurve_below)
    moreover have "0 \<le> dischargeCurve w"
    proof (cases "w < 13841203 / 4194304")
      case True
      then show ?thesis by (simp add: dischargeCurve_below)
    next
      case False
      with dischargeCurve_lower0 [of w] show ?thesis by simp
    qed
    ultimately show ?thesis by simp
  next
    case p0
    show ?thesis
    proof (cases "w < 7 / 2")
      case True
      with p0 assms piece0_mono [of v w] show ?thesis by (simp add: dischargeCurve_piece0)
    next
      case False
      with dischargeCurve_lower1 [of w] have "5 \<le> dischargeCurve w" by simp
      moreover from p0 dischargeCurve_upper1 [of v] have "dischargeCurve v \<le> 5" by simp
      ultimately show ?thesis by linarith
    qed
  next
    case p1
    show ?thesis
    proof (cases "w < 7549747 / 2097152")
      case True
      with p1 assms piece1_mono [of v w] show ?thesis by (simp add: dischargeCurve_piece1)
    next
      case False
      with dischargeCurve_lower2 [of w] have "15 \<le> dischargeCurve w" by simp
      moreover from p1 dischargeCurve_upper2 [of v] have "dischargeCurve v \<le> 15" by simp
      ultimately show ?thesis by linarith
    qed
  next
    case p2
    show ?thesis
    proof (cases "w < 15518925 / 4194304")
      case True
      with p2 assms piece2_mono [of v w] show ?thesis by (simp add: dischargeCurve_piece2)
    next
      case False
      with dischargeCurve_lower3 [of w] have "30 \<le> dischargeCurve w" by simp
      moreover from p2 dischargeCurve_upper3 [of v] have "dischargeCurve v \<le> 30" by simp
      ultimately show ?thesis by linarith
    qed
  next
    case p3
    show ?thesis
    proof (cases "w < 15938355 / 4194304")
      case True
      with p3 assms piece3_mono [of v w] show ?thesis by (simp add: dischargeCurve_piece3)
    next
      case False
      with dischargeCurve_lower4 [of w] have "50 \<le> dischargeCurve w" by simp
      moreover from p3 dischargeCurve_upper4 [of v] have "dischargeCurve v \<le> 50" by simp
      ultimately show ?thesis by linarith
    qed
  next
    case p4
    show ?thesis
    proof (cases "w < 8178893 / 2097152")
      case True
      with p4 assms piece4_mono [of v w] show ?thesis by (simp add: dischargeCurve_piece4)
    next
      case False
      with dischargeCurve_lower5 [of w] have "70 \<le> dischargeCurve w" by simp
      moreover from p4 dischargeCurve_upper5 [of v] have "dischargeCurve v \<le> 70" by simp
      ultimately show ?thesis by linarith
    qed
  next
    case p5
    show ?thesis
    proof (cases "w < 4")
      case True
      with p5 assms piece5_mono [of v w] show ?thesis by (simp add: dischargeCurve_piece5)
    next
      case False
      with dischargeCurve_lower6 [of w] have "85 \<le> dischargeCurve w" by simp
      moreover from p5 dischargeCurve_upper6 [of v] have "dischargeCurve v \<le> 85" by simp
      ultimately show ?thesis by linarith
    qed
  next
    case p6
    show ?thesis
    proof (cases "w < 8598323 / 2097152")
      case True
      with p6 assms piece6_mono [of v w] show ?thesis by (simp add: dischargeCurve_piece6)
    next
      case False
      with dischargeCurve_lower7 [of w] have "95 \<le> dischargeCurve w" by simp
      moreover from p6 dischargeCurve_upper7 [of v] have "dischargeCurve v \<le> 95" by simp
      ultimately show ?thesis by linarith
    qed
  next
    case p7
    show ?thesis
    proof (cases "w < 4404019 / 1048576")
      case True
      with p7 assms piece7_mono [of v w] show ?thesis by (simp add: dischargeCurve_piece7)
    next
      case False
      with dischargeCurve_lower8 [of w] have "100 \<le> dischargeCurve w" by simp
      moreover from p7 dischargeCurve_upper8 [of v] have "dischargeCurve v \<le> 100" by simp
      ultimately show ?thesis by linarith
    qed
  next
    case above
    with assms have "4404019 / 1048576 \<le> w" by linarith
    with above show ?thesis by (simp add: dischargeCurve_above)
  qed
qed

lemma roundf_whole: "roundf 100 = 100" "roundf 0 = 0"
  by (simp_all add: roundf_def)

lemma voltageToPercent_curve: "voltageToPercent v = roundf (dischargeCurve v)"
  unfolding voltageToPercent_def dischargeCurve_def curvePiece_def curveRise_def float32_literals
  by (simp only: roundf_whole if_distrib [of roundf])

lemma voltageToPercent_at_real_330: "voltageToPercent 3.30 = 0"
proof -
  have "roundf (curveRise (13841203 / 4194304) (7 / 2) 5 (33 / 10)) = 0" by code_simp
  then show ?thesis by (simp add: voltageToPercent_curve dischargeCurve_piece0)
qed

lemma voltageToPercent_at_float_330: "voltageToPercent (float32 3.30) = 0"
  unfolding float32_thresholds
  by (simp add: voltageToPercent_curve dischargeCurve_piece0 curveRise_def
      fsub_def fdiv_def fmul_def float32_zero roundf_whole)

lemma voltageToPercent_at_float_420: "voltageToPercent (float32 4.20) = 100"
  unfolding float32_thresholds
  by (simp add: voltageToPercent_curve dischargeCurve_above roundf_whole)

lemma voltageToPercent_at_float_300: "voltageToPercent (float32 3.0) = 0"
proof -
  have "float32 3.0 = 3" by code_simp
  then show ?thesis by (simp only: voltageToPercent_curve) (simp add: dischargeCurve_below roundf_whole)
qed

lemmas decode32 = isNaN32_def isInfinite32_def valueOf32_def exponent32_def fraction32_def negative32_def

lemma n1: "\<not> isNaN32 0x4074A3D7" "\<not> isInfinite32 0x4074A3D7" by (simp_all add: decode32)

lemma v1: "valueOf32 0x4074A3D7 = 16032727 / 4194304" by (simp add: decode32)

lemma v2: "valueOf32 0xC074A3D7 = - (16032727 / 4194304)" by (simp add: decode32)

lemma v3: "isNaN32 0x7FC00000" "isInfinite32 0x7F800000" "isInfinite32 0xFF800000" "negative32 0xFF800000"
  "\<not> negative32 0x7F800000"
  by (simp_all add: decode32)

lemma sample1: "voltageToPercentBits 0x4074A3D7 = 55"
proof -
  have "roundf (curvePiece 50 (15938355 / 4194304) (8178893 / 2097152) 20 (16032727 / 4194304)) = 55"
    by code_simp
  moreover have "voltageToPercentBits 0x4074A3D7 = voltageToPercent (16032727 / 4194304)"
    by (simp only: voltageToPercentBits_def n1 v1 if_False)
  ultimately show ?thesis
    by (simp add: voltageToPercent_curve dischargeCurve_piece4)
qed

lemma roundf_mono: "x \<le> y \<Longrightarrow> roundf x \<le> roundf y"
proof -
  assume xy: "x \<le> y"
  consider "0 \<le> x" | "x < 0" "0 \<le> y" | "y < 0" using xy by linarith
  then show ?thesis
  proof cases
    case 1
    then show ?thesis using xy by (simp add: roundf_def floor_mono)
  next
    case 2
    have a: "\<lceil>x - 1 / 2\<rceil> \<le> 0" using 2 by (simp add: ceiling_le_iff)
    have b: "0 \<le> \<lfloor>y + 1 / 2\<rfloor>" using 2 by (simp add: le_floor_iff)
    from a b have "\<lceil>x - 1 / 2\<rceil> \<le> \<lfloor>y + 1 / 2\<rfloor>" by (rule order_trans)
    then show ?thesis using 2 by (simp add: roundf_def)
  next
    case 3
    then show ?thesis using xy by (simp add: roundf_def ceiling_mono)
  qed
qed

lemma voltageToPercent_mono: "v \<le> w \<Longrightarrow> voltageToPercent v \<le> voltageToPercent w"
  by (simp only: voltageToPercent_curve roundf_mono dischargeCurve_mono)

lemma voltageToPercent_range: "0 \<le> voltageToPercent v \<and> voltageToPercent v \<le> 100"
proof -
  have "min v 0 < 13841203 / 4194304" by simp
  then have lo: "voltageToPercent (min v 0) = 0"
    by (simp only: voltageToPercent_curve dischargeCurve_below roundf_whole)
  have "4404019 / 1048576 \<le> max v 5" by simp
  then have hi: "voltageToPercent (max v 5) = 100"
    by (simp only: voltageToPercent_curve dischargeCurve_above roundf_whole)
  have "voltageToPercent (min v 0) \<le> voltageToPercent v" by (rule voltageToPercent_mono) simp
  moreover have "voltageToPercent v \<le> voltageToPercent (max v 5)" by (rule voltageToPercent_mono) simp
  ultimately show ?thesis using lo hi by simp
qed

lemma sample2: "voltageToPercentBits 0x4078CCCD = 67"
proof -
  have n: "\<not> isNaN32 0x4078CCCD" "\<not> isInfinite32 0x4078CCCD" by (simp_all add: decode32)
  have v: "valueOf32 0x4078CCCD = 16305357 / 4194304" by (simp add: decode32)
  have "roundf (curvePiece 50 (15938355 / 4194304) (8178893 / 2097152) 20 (16305357 / 4194304)) = 67"
    by code_simp
  moreover have "voltageToPercentBits 0x4078CCCD = voltageToPercent (16305357 / 4194304)"
    by (simp only: voltageToPercentBits_def n v if_False)
  ultimately show ?thesis
    by (simp add: voltageToPercent_curve dischargeCurve_piece4)
qed

lemma sample3: "voltageToPercentBits 0x407970A4 = 69"
proof -
  have n: "\<not> isNaN32 0x407970A4" "\<not> isInfinite32 0x407970A4" by (simp_all add: decode32)
  have v: "valueOf32 0x407970A4 = 4086825 / 1048576" by (simp add: decode32)
  have "roundf (curvePiece 50 (15938355 / 4194304) (8178893 / 2097152) 20 (4086825 / 1048576)) = 69"
    by code_simp
  moreover have "voltageToPercentBits 0x407970A4 = voltageToPercent (4086825 / 1048576)"
    by (simp only: voltageToPercentBits_def n v if_False)
  ultimately show ?thesis
    by (simp add: voltageToPercent_curve dischargeCurve_piece4)
qed

lemma voltageToPercentBits_special:
  "voltageToPercentBits 0x7FC00000 = 0" "voltageToPercentBits 0x7F800000 = 100"
  "voltageToPercentBits 0xFF800000 = 0"
  by (simp_all add: voltageToPercentBits_def isNaN32_def isInfinite32_def exponent32_def
      fraction32_def negative32_def)

lemma voltageToPercentBits_range: "0 \<le> voltageToPercentBits a \<and> voltageToPercentBits a \<le> 100"
  using voltageToPercent_range [of "valueOf32 a"] by (simp add: voltageToPercentBits_def)

lemma voltageToPercentBits_mono:
  assumes "\<not> isNaN32 a" "\<not> isNaN32 b" "lessEq32 a b"
  shows "voltageToPercentBits a \<le> voltageToPercentBits b"
proof (cases "isInfinite32 a")
  case True
  show ?thesis
  proof (cases "negative32 a")
    case True
    with \<open>isInfinite32 a\<close> assms(1) have "voltageToPercentBits a = 0"
      by (simp add: voltageToPercentBits_def)
    with voltageToPercentBits_range [of b] show ?thesis by simp
  next
    case False
    with \<open>isInfinite32 a\<close> assms(3) have "isInfinite32 b \<and> \<not> negative32 b"
      by (simp add: lessEq32_def)
    with assms(2) have "voltageToPercentBits b = 100" by (simp add: voltageToPercentBits_def)
    with voltageToPercentBits_range [of a] show ?thesis by simp
  qed
next
  case False
  show ?thesis
  proof (cases "isInfinite32 b")
    case True
    with False assms(3) have "\<not> negative32 b" by (simp add: lessEq32_def)
    with True assms(2) have "voltageToPercentBits b = 100" by (simp add: voltageToPercentBits_def)
    with voltageToPercentBits_range [of a] show ?thesis by simp
  next
    case nb: False
    with False assms(3) have "valueOf32 a \<le> valueOf32 b" by (simp add: lessEq32_def)
    then have "voltageToPercent (valueOf32 a) \<le> voltageToPercent (valueOf32 b)"
      by (rule voltageToPercent_mono)
    with False nb assms(1,2) show ?thesis by (simp add: voltageToPercentBits_def)
  qed
qed


text \<open>The three voltages of the specification, as the bit patterns of \<open>4.20f\<close>, \<open>3.30f\<close> and \<open>3.0f\<close>.\<close>

lemma voltageToPercentBits_literals:
  "voltageToPercentBits 0x40866666 = 100" "voltageToPercentBits 0x40533333 = 0"
  "voltageToPercentBits 0x40400000 = 0"
proof -
  have a: "\<not> isNaN32 0x40866666" "\<not> isInfinite32 0x40866666"
    "valueOf32 0x40866666 = 4404019 / 1048576" by (simp_all add: decode32)
  have "voltageToPercentBits 0x40866666 = voltageToPercent (4404019 / 1048576)"
    by (simp only: voltageToPercentBits_def a if_False)
  then show "voltageToPercentBits 0x40866666 = 100"
    by (simp only: voltageToPercent_at_float_420 [unfolded float32_thresholds])
  have b: "\<not> isNaN32 0x40533333" "\<not> isInfinite32 0x40533333"
    "valueOf32 0x40533333 = 13841203 / 4194304" by (simp_all add: decode32)
  have "voltageToPercentBits 0x40533333 = voltageToPercent (13841203 / 4194304)"
    by (simp only: voltageToPercentBits_def b if_False)
  then show "voltageToPercentBits 0x40533333 = 0"
    by (simp only: voltageToPercent_at_float_330 [unfolded float32_thresholds])
  have c: "\<not> isNaN32 0x40400000" "\<not> isInfinite32 0x40400000"
    "valueOf32 0x40400000 = 3" by (simp_all add: decode32)
  have "voltageToPercentBits 0x40400000 = voltageToPercent 3"
    by (simp only: voltageToPercentBits_def c if_False)
  then show "voltageToPercentBits 0x40400000 = 0"
    by (simp add: voltageToPercent_curve dischargeCurve_below roundf_whole)
qed

text \<open>
  C7. \<open>voltageToPercent\<close>, computed in single precision as the firmware does, never
  decreases when the voltage grows; it is 100 at the float \<open>4.20f\<close>, 0 at \<open>3.30f\<close> and at
  \<open>3.0f\<close>; it is 0 for every voltage below 3.30 V and 100 for every voltage from 4.20 V
  on. On bit patterns the same holds over the whole domain of \<open>float\<close>: for any two
  patterns that are not NaN and are ordered by \<open><=\<close>, infinities included, the results are
  ordered too, and the patterns of \<open>4.20f\<close>, \<open>3.30f\<close> and \<open>3.0f\<close> give 100, 0 and 0.
\<close>

theorem voltageToPercent_monotone_clamped:
  "(v \<le> w \<longrightarrow> voltageToPercent v \<le> voltageToPercent w) \<and>
   voltageToPercent (float32 4.20) = 100 \<and> voltageToPercent (float32 3.30) = 0 \<and>
   voltageToPercent (float32 3.0) = 0 \<and>
   (lo < 3.30 \<longrightarrow> voltageToPercent lo = 0) \<and>
   (4.20 \<le> hi \<longrightarrow> voltageToPercent hi = 100) \<and>
   (\<not> isNaN32 a \<and> \<not> isNaN32 b \<and> lessEq32 a b
      \<longrightarrow> voltageToPercentBits a \<le> voltageToPercentBits b) \<and>
   voltageToPercentBits 0x40866666 = 100 \<and> voltageToPercentBits 0x40533333 = 0 \<and>
   voltageToPercentBits 0x40400000 = 0"
proof (intro conjI impI)
  assume "v \<le> w"
  then show "voltageToPercent v \<le> voltageToPercent w" by (rule voltageToPercent_mono)
next
  show "voltageToPercent (float32 4.20) = 100" by (rule voltageToPercent_at_float_420)
next
  show "voltageToPercent (float32 3.30) = 0" by (rule voltageToPercent_at_float_330)
next
  show "voltageToPercent (float32 3.0) = 0" by (rule voltageToPercent_at_float_300)
next
  assume "lo < 3.30"
  then have "lo \<le> 3.30" by simp
  then have "voltageToPercent lo \<le> voltageToPercent 3.30" by (rule voltageToPercent_mono)
  with voltageToPercent_at_real_330 voltageToPercent_range [of lo]
  show "voltageToPercent lo = 0" by simp
next
  assume "4.20 \<le> hi"
  then have "4404019 / 1048576 \<le> hi" by simp
  then show "voltageToPercent hi = 100"
    by (simp only: voltageToPercent_curve dischargeCurve_above roundf_whole)
next
  assume "\<not> isNaN32 a \<and> \<not> isNaN32 b \<and> lessEq32 a b"
  then show "voltageToPercentBits a \<le> voltageToPercentBits b"
    by (simp add: voltageToPercentBits_mono)
next
  show "voltageToPercentBits 0x40866666 = 100" by (rule voltageToPercentBits_literals)
next
  show "voltageToPercentBits 0x40533333 = 0" by (rule voltageToPercentBits_literals)
next
  show "voltageToPercentBits 0x40400000 = 0" by (rule voltageToPercentBits_literals)
qed

theorem voltageToPercent_monotone_clamped_witness:
  "voltageToPercent 3.75 \<le> voltageToPercent 3.95 \<and> voltageToPercent 3.1 = 0 \<and>
   voltageToPercent 4.25 = 100 \<and>
   voltageToPercentBits 0x4074A3D7 \<le> voltageToPercentBits 0x4078CCCD"
proof -
  have 1: "\<not> isNaN32 0x4074A3D7" by (simp add: decode32)
  have 2: "\<not> isNaN32 0x4078CCCD" by (simp add: decode32)
  have 3: "lessEq32 0x4074A3D7 0x4078CCCD" by (simp add: lessEq32_def decode32)
  from voltageToPercent_monotone_clamped [of "3.75" "3.95" "3.1" "4.25" "0x4074A3D7" "0x4078CCCD"] 1 2 3
  show ?thesis by simp
qed

end
